theory Spec2Isabelle
  imports Complex_Main "HOL-Library.AList"
begin

section \<open>JavaScript values and objects\<close>

text \<open>
  The compiler stage works on plain JavaScript values. An object is the list of its own
  properties in insertion order; a property may be bound to \<open>undefined\<close>, which a
  property read cannot tell from a missing property but which key enumeration
  (\<open>for (name in x)\<close>) does see. Numbers are the exact values of their literals.
\<close>

datatype jsval =
    JUndefined
  | JNull
  | JBool bool
  | JNum real
  | JStr string
  | JArr "jsval list"
  | JObj "(string \<times> jsval) list"

type_synonym obj = "(string \<times> jsval) list"

section \<open>Marks, channels, field definitions, configuration\<close>

text \<open>
  The enumerations of \<open>../mark\<close>, \<open>../channel\<close> and \<open>../type\<close> are not among the
  source files; their members are the ones the spec and the two modules name. The text
  channel is written \<open>TEXT_CHANNEL\<close>, since \<open>TEXT\<close> is the mark.
\<close>

datatype Mark = AREA | BAR | LINE | POINT | TEXT | TICK | RULE | CIRCLE | SQUARE

datatype Channel =
  X | Y | ROW | COLUMN | SHAPE | SIZE | COLOR | TEXT_CHANNEL | DETAIL | LABEL | PATH | ORDER

datatype Type = QUANTITATIVE | ORDINAL | TEMPORAL | NOMINAL

text \<open>
  A field definition, with the properties the spec lists. \<open>type\<close> is \<open>None\<close> where the
  property is missing; the others are JavaScript values (\<open>bin\<close> is a boolean or an object
  of bin parameters, \<open>timeUnit\<close> a string; \<open>fd_title\<close> and \<open>fd_value\<close> are the
  source's \<open>fieldDef.title\<close> and \<open>fieldDef.value\<close>, the title and the constant of the
  binding).
\<close>

record FieldDef =
  field :: jsval
  type :: "Type option"
  bin :: jsval
  timeUnit :: jsval
  aggregate :: jsval
  fd_title :: jsval
  fd_value :: jsval

type_synonym Encoding = "Channel \<Rightarrow> FieldDef option"

text \<open>Of the configuration only its \<open>mark\<close> section is read here (\<open>config.mark\<close>).\<close>

record Config =
  config_mark :: obj

text \<open>
  \<open>isMeasure\<close> (of \<open>../fielddef\<close>), \<open>isAggregate\<close> and \<open>has\<close> (of \<open>../encoding\<close>) are
  not among the source files: they are parameters. Each is only ever tested for
  truthiness, so it returns a boolean. \<open>isMeasure\<close> is handed \<open>encoding.x\<close>, which is
  \<open>None\<close> when the channel is not bound.
\<close>

record EncodingFns =
  isMeasure :: "FieldDef option \<Rightarrow> bool"
  isAggregate :: "Encoding \<Rightarrow> bool"
  has :: "Encoding \<Rightarrow> Channel \<Rightarrow> bool"

text \<open>
  A legend request, as \<open>model.legend(channel)\<close> returns it: nothing (\<open>undefined\<close>), a
  boolean, or an object of legend properties (\<open>title\<close>, \<open>format\<close>, \<open>orient\<close>,
  \<open>values\<close>, \<open>properties\<close>).
\<close>

datatype Legend = NoLegend | LegendFlag bool | LegendProps obj

text \<open>
  What \<open>model.scaleName\<close> is asked for: a channel, or one of the two scale names
  \<open>COLOR_LEGEND\<close> and \<open>COLOR_LEGEND_LABEL\<close> that \<open>./scale\<close> exports (constants that are
  not among the source files).
\<close>

datatype ScaleKey = ChannelScale Channel | COLOR_LEGEND | COLOR_LEGEND_LABEL

text \<open>
  The unit model (\<open>./unit\<close>, not among the source files) is read through its accessors
  only: \<open>model.mark()\<close>, \<open>model.fieldDef(channel)\<close>, \<open>model.legend(channel)\<close>,
  \<open>model.scaleName(key)\<close>, \<open>model.has(channel)\<close> and \<open>model.config()\<close>.
\<close>

record UnitModel =
  model_mark :: Mark
  model_fieldDef :: "Channel \<Rightarrow> FieldDef"
  model_legend :: "Channel \<Rightarrow> Legend"
  model_scaleName :: "ScaleKey \<Rightarrow> string"
  model_has :: "Channel \<Rightarrow> bool"
  model_config :: Config

text \<open>
  The collaborators the legend module imports and that are not among the source files:
  \<open>title\<close> of \<open>../fielddef\<close> (imported as \<open>fieldTitle\<close>), and \<open>applyMarkConfig\<close>,
  \<open>FILL_STROKE_CONFIG\<close>, \<open>formatMixins\<close> (imported as \<open>utilFormatMixins\<close>) and
  \<open>timeFormat\<close> of \<open>./common\<close>. They are parameters. \<open>applyMarkConfig\<close> writes to the
  object it is handed; here it returns that object as it is after the call.
\<close>

record LegendFns =
  fieldTitle :: "FieldDef \<Rightarrow> jsval"
  applyMarkConfig :: "obj \<Rightarrow> UnitModel \<Rightarrow> string list \<Rightarrow> obj"
  FILL_STROKE_CONFIG :: "string list"
  utilFormatMixins :: "UnitModel \<Rightarrow> Channel \<Rightarrow> jsval \<Rightarrow> obj"
  timeFormat :: "UnitModel \<Rightarrow> Channel \<Rightarrow> string"

section \<open>The data of the translation on a store\<close>

text \<open>
  The second translation, further down, runs the same code on a store of objects;
  its data are declared here. A property holds a primitive or the address of an
  object, an object is the list of its properties, and the store is the list of the
  objects allocated so far.
\<close>

datatype hval = HUndefined | HNull | HBool bool | HNum real | HStr string | HRef nat

type_synonym hobj = "(string \<times> hval) list"

type_synonym store = "hobj list"

text \<open>
  The imported predicates of the mark defaults read the encoding (given by its address)
  and its field definitions from the store.
\<close>

record SEncodingFns =
  s_isMeasure :: "store \<Rightarrow> hval \<Rightarrow> bool"
  s_isAggregate :: "store \<Rightarrow> nat \<Rightarrow> bool"
  s_has :: "store \<Rightarrow> nat \<Rightarrow> Channel \<Rightarrow> bool"

text \<open>
  A field definition is only read: it is given by the values of the properties the code
  reads. The model's accessors answer from the state the model is in when the call
  starts; \<open>model.legend(channel)\<close> is \<open>undefined\<close>, a boolean or the address of the
  request, and \<open>sm_configMark\<close> is the address of \<open>model.config().mark\<close>.
\<close>

record SFieldDef =
  s_type :: "Type option"
  s_bin :: hval
  s_timeUnit :: hval
  s_value :: hval

record SUnitModel =
  sm_mark :: Mark
  sm_fieldDef :: "Channel \<Rightarrow> SFieldDef"
  sm_legend :: "Channel \<Rightarrow> hval"
  sm_scaleName :: "ScaleKey \<Rightarrow> string"
  sm_has :: "Channel \<Rightarrow> bool"
  sm_configMark :: nat

text \<open>
  The imported collaborators. Two of them work on the store: \<open>applyMarkConfig\<close> is
  handed the address of the object it fills in, and the format-mixin resolver returns
  the object it builds. The title of a field and the time format are strings.
\<close>

record SLegendFns =
  s_fieldTitle :: "SFieldDef \<Rightarrow> hval"
  s_applyMarkConfig :: "nat \<Rightarrow> SUnitModel \<Rightarrow> string list \<Rightarrow> store \<Rightarrow> store"
  s_FILL_STROKE_CONFIG :: "string list"
  s_utilFormatMixins :: "SUnitModel \<Rightarrow> Channel \<Rightarrow> hval \<Rightarrow> store \<Rightarrow> hval \<times> store"
  s_timeFormat :: "SUnitModel \<Rightarrow> Channel \<Rightarrow> string"

section \<open>Reading and writing objects\<close>

text \<open>Truthiness of a value, as \<open>if (v)\<close>, \<open>v || w\<close> and \<open>v ? a : b\<close> test it.\<close>

fun truthy :: "jsval \<Rightarrow> bool" where
  "truthy JUndefined = False"
| "truthy JNull = False"
| "truthy (JBool b) = b"
| "truthy (JNum n) = (n \<noteq> 0)"
| "truthy (JStr s) = (s \<noteq> [])"
| "truthy (JArr xs) = True"
| "truthy (JObj kvs) = True"

text \<open>The property read \<open>o[k]\<close>: \<open>undefined\<close> for a missing property.\<close>

definition get :: "obj \<Rightarrow> string \<Rightarrow> jsval" where
  "get ob k = (case map_of ob k of None \<Rightarrow> JUndefined | Some v \<Rightarrow> v)"

text \<open>
  The assignment \<open>o[k] = v\<close>: an existing property keeps its place, a new one is added
  last.
\<close>

fun assign :: "(string \<times> 'v) list \<Rightarrow> string \<Rightarrow> 'v \<Rightarrow> (string \<times> 'v) list" where
  "assign [] k v = [(k, v)]"
| "assign ((k', v') # kvs) k v =
     (if k' = k then (k, v) # kvs else (k', v') # assign kvs k v)"

text \<open>
  Modelled from the spec: the general-purpose helpers of \<open>../util\<close> (key listing, object
  merge, membership, set difference) are not among the source files. \<open>keys\<close> lists the
  properties of an object; \<open>extend(obj, src)\<close> runs \<open>obj[name] = src[name]\<close> for every
  property name of \<open>src\<close> and returns \<open>obj\<close>; \<open>contains\<close> is membership in an array;
  \<open>without\<close> is the array without the excluded items.
\<close>

definition keys :: "obj \<Rightarrow> string list" where
  "keys ob = map fst ob"

definition extend :: "obj \<Rightarrow> obj \<Rightarrow> obj" where
  "extend ob src = fold (\<lambda>name acc. assign acc name (get src name)) (keys src) ob"

definition contains :: "'a list \<Rightarrow> 'a \<Rightarrow> bool" where
  "contains xs x = (x \<in> set xs)"

definition without :: "'a list \<Rightarrow> 'a list \<Rightarrow> 'a list" where
  "without xs excluded = filter (\<lambda>x. \<not> contains excluded x) xs"

text \<open>
  The properties \<open>for (name in v)\<close> enumerates on a value, with their values: the own
  properties of an object, the indices of an array or a string (\<open>"0"\<close>, \<open>"1"\<close>, ...), and
  nothing on a number, a boolean, \<open>null\<close> or \<open>undefined\<close>.
\<close>

definition digit :: "nat \<Rightarrow> char" where
  "digit d = char_of (48 + d)"

fun decimal :: "nat \<Rightarrow> string" where
  "decimal n = (if n < 10 then [digit n] else decimal (n div 10) @ [digit (n mod 10)])"

fun entries :: "jsval \<Rightarrow> obj" where
  "entries (JObj kvs) = kvs"
| "entries (JArr xs) = zip (map decimal [0..<length xs]) xs"
| "entries (JStr s) = zip (map decimal [0..<length s]) (map (\<lambda>c. JStr [c]) s)"
| "entries v = []"

section \<open>Mark defaults (\<open>src/compile/config.ts\<close>)\<close>

text \<open>
  The callback of the \<open>reduce\<close> in \<open>initMarkConfig\<close>: one step of the \<open>switch\<close> on the
  property name, on the accumulator \<open>cfg\<close>.
\<close>

definition markRule ::
  "EncodingFns \<Rightarrow> Mark \<Rightarrow> Encoding \<Rightarrow> Config \<Rightarrow> obj \<Rightarrow> string \<Rightarrow> obj" where
  "markRule fns mark encoding config cfg property =
     (let val = get (config_mark config) property in
      if property = ''filled'' then
        (if val = JUndefined
         then assign cfg property (JBool (mark \<noteq> POINT \<and> mark \<noteq> LINE \<and> mark \<noteq> RULE))
         else cfg)
      else if property = ''opacity'' then
        (if val = JUndefined \<and> contains [POINT, TICK, CIRCLE, SQUARE] mark
         then (if \<not> isAggregate fns encoding \<or> has fns encoding DETAIL
               then assign cfg property (JNum 0.7)
               else cfg)
         else cfg)
      else if property = ''orient'' then
        (let xIsMeasure = isMeasure fns (encoding X);
             yIsMeasure = isMeasure fns (encoding Y)
         in if xIsMeasure \<and> \<not> yIsMeasure then assign cfg property (JStr ''horizontal'')
            else if \<not> xIsMeasure \<and> yIsMeasure then assign cfg property JUndefined
            else cfg)
      else if property = ''align'' then
        (if val = JUndefined
         then assign cfg property (JStr (if has fns encoding X then ''center'' else ''right''))
         else cfg)
      else cfg)"

definition initMarkConfig :: "EncodingFns \<Rightarrow> Mark \<Rightarrow> Encoding \<Rightarrow> Config \<Rightarrow> obj" where
  "initMarkConfig fns mark encoding config =
     extend
       (foldl (markRule fns mark encoding config) []
          [''filled'', ''opacity'', ''orient'', ''align''])
       (config_mark config)"

section \<open>Legends (the legend module of \<open>src/compile\<close>)\<close>

text \<open>
  A read of a property of \<open>undefined\<close> or \<open>null\<close>, and a write to one, throw a
  \<open>TypeError\<close>; it is the only error this code can raise by itself.
\<close>

datatype error = TypeError

text \<open>\<open>useColorLegendScale\<close>: the operands of \<open>||\<close> are tested for truthiness.\<close>

definition useColorLegendScale :: "FieldDef \<Rightarrow> bool" where
  "useColorLegendScale fieldDef =
     (type fieldDef = Some ORDINAL \<or> truthy (bin fieldDef) \<or> truthy (timeUnit fieldDef))"

text \<open>\<open>getLegendDefWithScale\<close>: \<open>None\<close> is the \<open>null\<close> after the \<open>switch\<close>.\<close>

definition getLegendDefWithScale :: "UnitModel \<Rightarrow> Channel \<Rightarrow> obj option" where
  "getLegendDefWithScale model channel =
     (case channel of
        COLOR \<Rightarrow>
          (let fieldDef = model_fieldDef model COLOR;
               scale = model_scaleName model
                 (if useColorLegendScale fieldDef then COLOR_LEGEND else ChannelScale COLOR)
           in if truthy (get (config_mark (model_config model)) ''filled'')
              then Some [(''fill'', JStr scale)]
              else Some [(''stroke'', JStr scale)])
      | SIZE \<Rightarrow> Some [(''size'', JStr (model_scaleName model (ChannelScale SIZE)))]
      | SHAPE \<Rightarrow> Some [(''shape'', JStr (model_scaleName model (ChannelScale SHAPE)))]
      | _ \<Rightarrow> None)"

text \<open>
  \<open>title\<close>: \<open>typeof legend !== 'boolean' && legend.title\<close> reads a property of the
  request unless the request is a boolean, so a missing request throws.
\<close>

definition title :: "LegendFns \<Rightarrow> Legend \<Rightarrow> FieldDef \<Rightarrow> error + jsval" where
  "title fns legend fieldDef =
     (case legend of
        NoLegend \<Rightarrow> Inl TypeError
      | LegendFlag b \<Rightarrow> Inr (fieldTitle fns fieldDef)
      | LegendProps props \<Rightarrow>
          (if truthy (get props ''title'') then Inr (get props ''title'')
           else Inr (fieldTitle fns fieldDef)))"

definition formatMixins :: "LegendFns \<Rightarrow> Legend \<Rightarrow> UnitModel \<Rightarrow> Channel \<Rightarrow> error + obj" where
  "formatMixins fns legend model channel =
     (let fieldDef = model_fieldDef model channel in
      if truthy (bin fieldDef) then Inr []
      else
        (case legend of
           NoLegend \<Rightarrow> Inl TypeError
         | LegendFlag b \<Rightarrow> Inr (utilFormatMixins fns model channel JUndefined)
         | LegendProps props \<Rightarrow> Inr (utilFormatMixins fns model channel (get props ''format''))))"

text \<open>
  The value \<open>model.mark()\<close> has as a string (\<open>symbols.shape = { value: mark }\<close>): the
  members of the \<open>Mark\<close> enumeration are their lower-case names.
\<close>

fun mark_string :: "Mark \<Rightarrow> string" where
  "mark_string AREA = ''area''"
| "mark_string BAR = ''bar''"
| "mark_string LINE = ''line''"
| "mark_string POINT = ''point''"
| "mark_string TEXT = ''text''"
| "mark_string TICK = ''tick''"
| "mark_string RULE = ''rule''"
| "mark_string CIRCLE = ''circle''"
| "mark_string SQUARE = ''square''"

text \<open>\<open>properties.symbols\<close>. The result \<open>JUndefined\<close> is the \<open>undefined\<close> it returns.\<close>

definition symbols :: "LegendFns \<Rightarrow> FieldDef \<Rightarrow> jsval \<Rightarrow> UnitModel \<Rightarrow> Channel \<Rightarrow> jsval" where
  "symbols fns fieldDef symbolsSpec model channel =
     (let symbols0 = [];
          mark = model_mark model;
          symbols1 =
            (if mark = BAR \<or> mark = TICK \<or> mark = TEXT
             then assign symbols0 ''shape'' (JObj [(''value'', JStr ''square'')])
             else if mark = CIRCLE \<or> mark = SQUARE
             then assign symbols0 ''shape'' (JObj [(''value'', JStr (mark_string mark))])
             else symbols0);
          filled = get (config_mark (model_config model)) ''filled'';
          symbols2 = applyMarkConfig fns symbols1 model
            (if channel = COLOR
             then without (FILL_STROKE_CONFIG fns) [if truthy filled then ''fill'' else ''stroke'']
             else FILL_STROKE_CONFIG fns);
          symbols3 =
            (if truthy filled
             then assign symbols2 ''strokeWidth'' (JObj [(''value'', JNum 0)])
             else symbols2);
          val =
            (if model_has model COLOR \<and> channel = COLOR
             then (if useColorLegendScale fieldDef
                   then JObj [(''scale'', JStr (model_scaleName model (ChannelScale COLOR))),
                              (''field'', JStr ''data'')]
                   else JUndefined)
             else if truthy (fd_value (model_fieldDef model COLOR))
             then JObj [(''value'', fd_value (model_fieldDef model COLOR))]
             else JUndefined);
          fs = (if truthy filled then ''fill'' else ''stroke'');
          symbols4 =
            (if val \<noteq> JUndefined
             then (if truthy filled then assign symbols3 ''fill'' val
                   else assign symbols3 ''stroke'' val)
             else if channel \<noteq> COLOR
             then assign symbols3 fs
                    (if truthy (get symbols3 fs) then get symbols3 fs
                     else JObj [(''value'', get (config_mark (model_config model)) ''color'')])
             else symbols3);
          symbols5 = extend symbols4
            (entries (if truthy symbolsSpec then symbolsSpec else JObj []))
      in if length (keys symbols5) > 0 then JObj symbols5 else JUndefined)"

text \<open>
  \<open>properties.labels\<close>. Its second parameter (named \<open>symbolsSpec\<close> in the source) is the
  override of the labels group; the body never reads it.
\<close>

definition labels :: "LegendFns \<Rightarrow> FieldDef \<Rightarrow> jsval \<Rightarrow> UnitModel \<Rightarrow> Channel \<Rightarrow> jsval" where
  "labels fns fieldDef symbolsSpec model channel =
     (if channel = COLOR then
        (if type fieldDef = Some ORDINAL then
           JObj [(''text'', JObj [(''scale'', JStr (model_scaleName model COLOR_LEGEND)),
                                  (''field'', JStr ''data'')])]
         else if truthy (bin fieldDef) then
           JObj [(''text'', JObj [(''scale'', JStr (model_scaleName model COLOR_LEGEND_LABEL)),
                                  (''field'', JStr ''data'')])]
         else if truthy (timeUnit fieldDef) then
           JObj [(''text'', JObj [(''template'',
             JStr (''{{ datum.data | time:'' @ [CHR 0x27] @ timeFormat fns model channel
                   @ [CHR 0x27] @ ''}}''))])]
         else JUndefined)
      else JUndefined)"

text \<open>
  The namespace \<open>properties\<close> as a table from group name to rule: \<open>properties[group]\<close>
  is a function for \<open>symbols\<close> and \<open>labels\<close> and \<open>undefined\<close> for every other name.
\<close>

definition properties ::
  "string \<Rightarrow> (LegendFns \<Rightarrow> FieldDef \<Rightarrow> jsval \<Rightarrow> UnitModel \<Rightarrow> Channel \<Rightarrow> jsval) option" where
  "properties grp =
     (if grp = ''symbols'' then Some symbols
      else if grp = ''labels'' then Some labels
      else None)"

text \<open>
  The callback of the first \<open>forEach\<close> of \<open>parseLegend\<close>: \<open>legend[property]\<close> is
  \<open>undefined\<close> on a boolean. (A missing request does not come this far: \<open>title\<close> has
  thrown.)
\<close>

definition copyProperty :: "Legend \<Rightarrow> obj \<Rightarrow> string \<Rightarrow> obj" where
  "copyProperty legend def property =
     (let val = (case legend of LegendProps lp \<Rightarrow> get lp property | _ \<Rightarrow> JUndefined)
      in if val \<noteq> JUndefined then assign def property val else def)"

text \<open>
  \<open>props\<close>, the value of \<open>(typeof legend !== 'boolean' && legend.properties) || {}\<close>,
  and \<open>props[group]\<close>, the override the request gives for a group.
\<close>

definition requestedProps :: "Legend \<Rightarrow> jsval" where
  "requestedProps legend =
     (let requested = (case legend of LegendProps lp \<Rightarrow> get lp ''properties'' | _ \<Rightarrow> JBool False)
      in if truthy requested then requested else JObj [])"

definition override :: "Legend \<Rightarrow> string \<Rightarrow> jsval" where
  "override legend grp = get (entries (requestedProps legend)) grp"

text \<open>
  The callback of the second \<open>forEach\<close>, on the definition built so far (\<open>grp\<close> is
  the source's \<open>group\<close>). \<open>groupValue\<close> is its \<open>value\<close>: the rule's result if the
  group has a rule, the override if it has none; \<open>emitted\<close> is the test
  \<open>value !== undefined && keys(value).length > 0\<close>.
  \<open>def.properties = def.properties || {}\<close> keeps a truthy value
  that is already there (only the format mixins can have put one);
  \<open>def.properties[group] = value\<close> then writes into that object, and a write to a
  property of a primitive throws.
\<close>

definition groupValue ::
  "LegendFns \<Rightarrow> FieldDef \<Rightarrow> Legend \<Rightarrow> UnitModel \<Rightarrow> Channel \<Rightarrow> string \<Rightarrow> jsval" where
  "groupValue fns fieldDef legend model channel grp =
     (case properties grp of
        Some rule \<Rightarrow> rule fns fieldDef (override legend grp) model channel
      | None \<Rightarrow> override legend grp)"

definition emitted :: "jsval \<Rightarrow> bool" where
  "emitted val = (val \<noteq> JUndefined \<and> length (keys (entries val)) > 0)"

definition addGroup ::
  "LegendFns \<Rightarrow> FieldDef \<Rightarrow> Legend \<Rightarrow> UnitModel \<Rightarrow> Channel \<Rightarrow> error + obj \<Rightarrow> string \<Rightarrow> error + obj"
  where
  "addGroup fns fieldDef legend model channel acc grp =
     (case acc of
        Inl e \<Rightarrow> Inl e
      | Inr def \<Rightarrow>
          (let val = groupValue fns fieldDef legend model channel grp
           in if emitted val
              then
                (case (if truthy (get def ''properties'') then get def ''properties''
                       else JObj []) of
                   JObj groups \<Rightarrow> Inr (assign def ''properties'' (JObj (assign groups grp val)))
                 | _ \<Rightarrow> Inl TypeError)
              else Inr def))"

definition parseLegend :: "LegendFns \<Rightarrow> UnitModel \<Rightarrow> Channel \<Rightarrow> error + obj" where
  "parseLegend fns model channel =
     (let fieldDef = model_fieldDef model channel;
          legend = model_legend model channel
      in case getLegendDefWithScale model channel of
           None \<Rightarrow> Inl TypeError
         | Some def0 \<Rightarrow>
             (case title fns legend fieldDef of
                Inl e \<Rightarrow> Inl e
              | Inr t \<Rightarrow>
                  (case formatMixins fns legend model channel of
                     Inl e \<Rightarrow> Inl e
                   | Inr mixins \<Rightarrow>
                       foldl (addGroup fns fieldDef legend model channel)
                         (Inr (foldl (copyProperty legend)
                                 (extend (assign def0 ''title'' t) mixins)
                                 [''orient'', ''values'']))
                         [''title'', ''symbols'', ''legend'', ''labels''])))"

text \<open>
  \<open>parseLegendComponent\<close>: the result maps a channel to its legend. The callback of
  the \<open>reduce\<close> tests \<open>model.legend(channel)\<close> for truthiness.
\<close>

fun legend_truthy :: "Legend \<Rightarrow> bool" where
  "legend_truthy NoLegend = False"
| "legend_truthy (LegendFlag b) = b"
| "legend_truthy (LegendProps props) = True"

definition addLegend ::
  "LegendFns \<Rightarrow> UnitModel \<Rightarrow> error + (Channel \<times> obj) list \<Rightarrow> Channel
   \<Rightarrow> error + (Channel \<times> obj) list" where
  "addLegend fns model acc channel =
     (case acc of
        Inl e \<Rightarrow> Inl e
      | Inr legendComponent \<Rightarrow>
          (if legend_truthy (model_legend model channel)
           then (case parseLegend fns model channel of
                   Inl e \<Rightarrow> Inl e
                 | Inr def \<Rightarrow> Inr (AList.update channel def legendComponent))
           else Inr legendComponent))"

definition parseLegendComponent :: "LegendFns \<Rightarrow> UnitModel \<Rightarrow> error + (Channel \<times> obj) list" where
  "parseLegendComponent fns model = foldl (addLegend fns model) (Inr []) [COLOR, SIZE, SHAPE]"

text \<open>
  The stages of \<open>properties.symbols\<close>, named for the theorems: the property the color
  goes to (\<open>filled ? 'fill' : 'stroke'\<close>); the object after the shape, the mark
  configuration and the stroke width; the \<open>value\<close> the color channel gives; and the
  object just before the override is merged in. \<open>symbols_stages\<close> below shows that
  \<open>symbols\<close> is their composition.
\<close>

definition fillOrStroke :: "UnitModel \<Rightarrow> string" where
  "fillOrStroke model =
     (if truthy (get (config_mark (model_config model)) ''filled'') then ''fill'' else ''stroke'')"

definition symbolsBase :: "LegendFns \<Rightarrow> UnitModel \<Rightarrow> Channel \<Rightarrow> obj" where
  "symbolsBase fns model channel =
     (let mark = model_mark model;
          symbols1 =
            (if mark = BAR \<or> mark = TICK \<or> mark = TEXT
             then assign [] ''shape'' (JObj [(''value'', JStr ''square'')])
             else if mark = CIRCLE \<or> mark = SQUARE
             then assign [] ''shape'' (JObj [(''value'', JStr (mark_string mark))])
             else []);
          filled = get (config_mark (model_config model)) ''filled'';
          symbols2 = applyMarkConfig fns symbols1 model
            (if channel = COLOR
             then without (FILL_STROKE_CONFIG fns) [if truthy filled then ''fill'' else ''stroke'']
             else FILL_STROKE_CONFIG fns)
      in if truthy filled
         then assign symbols2 ''strokeWidth'' (JObj [(''value'', JNum 0)])
         else symbols2)"

definition symbolsValue :: "FieldDef \<Rightarrow> UnitModel \<Rightarrow> Channel \<Rightarrow> jsval" where
  "symbolsValue fieldDef model channel =
     (if model_has model COLOR \<and> channel = COLOR
      then (if useColorLegendScale fieldDef
            then JObj [(''scale'', JStr (model_scaleName model (ChannelScale COLOR))),
                       (''field'', JStr ''data'')]
            else JUndefined)
      else if truthy (fd_value (model_fieldDef model COLOR))
      then JObj [(''value'', fd_value (model_fieldDef model COLOR))]
      else JUndefined)"

definition symbolsGenerated :: "LegendFns \<Rightarrow> FieldDef \<Rightarrow> UnitModel \<Rightarrow> Channel \<Rightarrow> obj" where
  "symbolsGenerated fns fieldDef model channel =
     (let symbols3 = symbolsBase fns model channel;
          val = symbolsValue fieldDef model channel;
          fs = fillOrStroke model
      in if val \<noteq> JUndefined then assign symbols3 fs val
         else if channel \<noteq> COLOR
         then assign symbols3 fs
                (if truthy (get symbols3 fs) then get symbols3 fs
                 else JObj [(''value'', get (config_mark (model_config model)) ''color'')])
         else symbols3)"

text \<open>
  The condition under which the second loop of \<open>parseLegend\<close> cannot throw: what the
  definition has under \<open>properties\<close> is falsy or an object.
\<close>

definition groups_ok :: "obj \<Rightarrow> bool" where
  "groups_ok def = (\<not> truthy (get def ''properties'') \<or> (\<exists>groups. get def ''properties'' = JObj groups))"

section \<open>The same code on a store of objects\<close>

text \<open>
  The definitions above compute with values, so they cannot say which object a write
  goes to. For that the two modules are translated a second time, on a store: an
  object is an address into a list of objects, an object literal allocates at the end of
  the list, \<open>o[k] = v\<close> updates the object at the address of \<open>o\<close>, and a property holds
  a primitive or the address of another object (an array is an object whose properties
  are its indices). Every assignment and every object literal of the source is a step
  on the store; a thrown error comes with the store as it was when it was thrown.
\<close>

fun htruthy :: "hval \<Rightarrow> bool" where
  "htruthy HUndefined = False"
| "htruthy HNull = False"
| "htruthy (HBool b) = b"
| "htruthy (HNum n) = (n \<noteq> 0)"
| "htruthy (HStr s) = (s \<noteq> [])"
| "htruthy (HRef a) = True"

text \<open>The properties \<open>for (name in v)\<close> enumerates, with their values.\<close>

fun hprops :: "store \<Rightarrow> hval \<Rightarrow> hobj" where
  "hprops st (HRef a) = (if a < length st then st ! a else [])"
| "hprops st (HStr s) = zip (map decimal [0..<length s]) (map (\<lambda>c. HStr [c]) s)"
| "hprops st v = []"

text \<open>The read \<open>v[k]\<close> of a value that is not \<open>undefined\<close> or \<open>null\<close>.\<close>

definition hget :: "store \<Rightarrow> hval \<Rightarrow> string \<Rightarrow> hval" where
  "hget st v k = (case map_of (hprops st v) k of None \<Rightarrow> HUndefined | Some x \<Rightarrow> x)"

text \<open>The write \<open>o[k] = v\<close> to the object at address \<open>a\<close>, and an object literal.\<close>

definition hset :: "nat \<Rightarrow> string \<Rightarrow> hval \<Rightarrow> store \<Rightarrow> store" where
  "hset a k v st = st[a := assign (st ! a) k v]"

definition alloc :: "hobj \<Rightarrow> store \<Rightarrow> nat \<times> store" where
  "alloc ob st = (length st, st @ [ob])"

text \<open>
  Modelled from the spec: \<open>extend(obj, src)\<close> of \<open>../util\<close>, the object merge, on the
  store: \<open>obj[name] = src[name]\<close> for every property name of \<open>src\<close>.
\<close>

definition hextend :: "nat \<Rightarrow> hval \<Rightarrow> store \<Rightarrow> store" where
  "hextend ob src st =
     fold (\<lambda>name s. hset ob name (hget s src name) s) (map fst (hprops st src)) st"

subsection \<open>Mark defaults on the store\<close>

text \<open>
  \<open>encoding\<close> and \<open>configMark\<close> are the addresses of the encoding and of
  \<open>config.mark\<close>; \<open>cfg\<close> is the accumulator of the \<open>reduce\<close>, the object its
  initial value \<open>{}\<close> allocates (the callback returns the object it is handed).
\<close>

definition markRule_st ::
  "SEncodingFns \<Rightarrow> Mark \<Rightarrow> nat \<Rightarrow> nat \<Rightarrow> nat \<Rightarrow> store \<Rightarrow> string \<Rightarrow> store" where
  "markRule_st fns mark encoding configMark cfg st property =
     (let val = hget st (HRef configMark) property in
      if property = ''filled'' then
        (if val = HUndefined
         then hset cfg property (HBool (mark \<noteq> POINT \<and> mark \<noteq> LINE \<and> mark \<noteq> RULE)) st
         else st)
      else if property = ''opacity'' then
        (if val = HUndefined \<and> contains [POINT, TICK, CIRCLE, SQUARE] mark
         then (if \<not> s_isAggregate fns st encoding \<or> s_has fns st encoding DETAIL
               then hset cfg property (HNum 0.7) st
               else st)
         else st)
      else if property = ''orient'' then
        (let xIsMeasure = s_isMeasure fns st (hget st (HRef encoding) ''x'');
             yIsMeasure = s_isMeasure fns st (hget st (HRef encoding) ''y'')
         in if xIsMeasure \<and> \<not> yIsMeasure then hset cfg property (HStr ''horizontal'') st
            else if \<not> xIsMeasure \<and> yIsMeasure then hset cfg property HUndefined st
            else st)
      else if property = ''align'' then
        (if val = HUndefined
         then hset cfg property
                (HStr (if s_has fns st encoding X then ''center'' else ''right'')) st
         else st)
      else st)"

definition initMarkConfig_st ::
  "SEncodingFns \<Rightarrow> Mark \<Rightarrow> nat \<Rightarrow> nat \<Rightarrow> store \<Rightarrow> nat \<times> store" where
  "initMarkConfig_st fns mark encoding configMark st =
     (let (cfg, st1) = alloc [] st;
          st2 = foldl (markRule_st fns mark encoding configMark cfg) st1
                  [''filled'', ''opacity'', ''orient'', ''align'']
      in (cfg, hextend cfg (HRef configMark) st2))"

subsection \<open>Legends on the store\<close>

definition useColorLegendScale_st :: "SFieldDef \<Rightarrow> bool" where
  "useColorLegendScale_st fieldDef =
     (s_type fieldDef = Some ORDINAL \<or> htruthy (s_bin fieldDef) \<or> htruthy (s_timeUnit fieldDef))"

definition getLegendDefWithScale_st :: "SUnitModel \<Rightarrow> Channel \<Rightarrow> store \<Rightarrow> hval \<times> store" where
  "getLegendDefWithScale_st model channel st =
     (case channel of
        COLOR \<Rightarrow>
          (let fieldDef = sm_fieldDef model COLOR;
               scale = sm_scaleName model
                 (if useColorLegendScale_st fieldDef then COLOR_LEGEND else ChannelScale COLOR);
               (def, st1) =
                 (if htruthy (hget st (HRef (sm_configMark model)) ''filled'')
                  then alloc [(''fill'', HStr scale)] st
                  else alloc [(''stroke'', HStr scale)] st)
           in (HRef def, st1))
      | SIZE \<Rightarrow>
          (let (def, st1) = alloc [(''size'', HStr (sm_scaleName model (ChannelScale SIZE)))] st
           in (HRef def, st1))
      | SHAPE \<Rightarrow>
          (let (def, st1) = alloc [(''shape'', HStr (sm_scaleName model (ChannelScale SHAPE)))] st
           in (HRef def, st1))
      | _ \<Rightarrow> (HNull, st))"

text \<open>
  A property read on the legend request: it throws on \<open>undefined\<close> and \<open>null\<close>. In
  \<open>title\<close>, \<open>formatMixins\<close> and the \<open>props\<close> of \<open>parseLegend\<close> the read is guarded by
  \<open>typeof legend !== 'boolean'\<close>.
\<close>

definition is_boolean :: "hval \<Rightarrow> bool" where
  "is_boolean v = (case v of HBool b \<Rightarrow> True | _ \<Rightarrow> False)"

definition nullish :: "hval \<Rightarrow> bool" where
  "nullish v = (v = HUndefined \<or> v = HNull)"

definition title_st :: "SLegendFns \<Rightarrow> hval \<Rightarrow> SFieldDef \<Rightarrow> store \<Rightarrow> error + hval" where
  "title_st fns legend fieldDef st =
     (if is_boolean legend then Inr (s_fieldTitle fns fieldDef)
      else if nullish legend then Inl TypeError
      else if htruthy (hget st legend ''title'') then Inr (hget st legend ''title'')
      else Inr (s_fieldTitle fns fieldDef))"

definition formatMixins_st ::
  "SLegendFns \<Rightarrow> hval \<Rightarrow> SUnitModel \<Rightarrow> Channel \<Rightarrow> store \<Rightarrow> (error + hval) \<times> store" where
  "formatMixins_st fns legend model channel st =
     (let fieldDef = sm_fieldDef model channel in
      if htruthy (s_bin fieldDef) then (let (ob, st1) = alloc [] st in (Inr (HRef ob), st1))
      else if is_boolean legend
      then (let (m, st1) = s_utilFormatMixins fns model channel HUndefined st in (Inr m, st1))
      else if nullish legend then (Inl TypeError, st)
      else (let (m, st1) = s_utilFormatMixins fns model channel (hget st legend ''format'') st
            in (Inr m, st1)))"

definition symbols_st ::
  "SLegendFns \<Rightarrow> SFieldDef \<Rightarrow> hval \<Rightarrow> SUnitModel \<Rightarrow> Channel \<Rightarrow> store \<Rightarrow> hval \<times> store" where
  "symbols_st fns fieldDef symbolsSpec model channel st0 =
     (let (symbols, st1) = alloc [] st0;
          mark = sm_mark model;
          st2 =
            (if mark = BAR \<or> mark = TICK \<or> mark = TEXT
             then (let (v, s) = alloc [(''value'', HStr ''square'')] st1
                   in hset symbols ''shape'' (HRef v) s)
             else if mark = CIRCLE \<or> mark = SQUARE
             then (let (v, s) = alloc [(''value'', HStr (mark_string mark))] st1
                   in hset symbols ''shape'' (HRef v) s)
             else st1);
          filled = hget st2 (HRef (sm_configMark model)) ''filled'';
          st3 = s_applyMarkConfig fns symbols model
            (if channel = COLOR
             then without (s_FILL_STROKE_CONFIG fns)
                    [if htruthy filled then ''fill'' else ''stroke'']
             else s_FILL_STROKE_CONFIG fns) st2;
          st4 =
            (if htruthy filled
             then (let (v, s) = alloc [(''value'', HNum 0)] st3
                   in hset symbols ''strokeWidth'' (HRef v) s)
             else st3);
          (val, st5) =
            (if sm_has model COLOR \<and> channel = COLOR
             then (if useColorLegendScale_st fieldDef
                   then (let (v, s) = alloc
                               [(''scale'', HStr (sm_scaleName model (ChannelScale COLOR))),
                                (''field'', HStr ''data'')] st4
                         in (HRef v, s))
                   else (HUndefined, st4))
             else if htruthy (s_value (sm_fieldDef model COLOR))
             then (let (v, s) = alloc [(''value'', s_value (sm_fieldDef model COLOR))] st4
                   in (HRef v, s))
             else (HUndefined, st4));
          fs = (if htruthy filled then ''fill'' else ''stroke'');
          st6 =
            (if val \<noteq> HUndefined
             then (if htruthy filled then hset symbols ''fill'' val st5
                   else hset symbols ''stroke'' val st5)
             else if channel \<noteq> COLOR
             then (if htruthy (hget st5 (HRef symbols) fs)
                   then hset symbols fs (hget st5 (HRef symbols) fs) st5
                   else (let (v, s) = alloc
                               [(''value'', hget st5 (HRef (sm_configMark model)) ''color'')] st5
                         in hset symbols fs (HRef v) s))
             else st5);
          (spec, st7) =
            (if htruthy symbolsSpec then (symbolsSpec, st6)
             else (let (v, s) = alloc [] st6 in (HRef v, s)));
          st8 = hextend symbols spec st7
      in (if length (hprops st8 (HRef symbols)) > 0 then HRef symbols else HUndefined, st8))"

definition labels_st ::
  "SLegendFns \<Rightarrow> SFieldDef \<Rightarrow> hval \<Rightarrow> SUnitModel \<Rightarrow> Channel \<Rightarrow> store \<Rightarrow> hval \<times> store" where
  "labels_st fns fieldDef symbolsSpec model channel st =
     (if channel = COLOR then
        (if s_type fieldDef = Some ORDINAL then
           (let (t, st1) = alloc [(''scale'', HStr (sm_scaleName model COLOR_LEGEND)),
                                  (''field'', HStr ''data'')] st;
                (l, st2) = alloc [(''text'', HRef t)] st1
            in (HRef l, st2))
         else if htruthy (s_bin fieldDef) then
           (let (t, st1) = alloc [(''scale'', HStr (sm_scaleName model COLOR_LEGEND_LABEL)),
                                  (''field'', HStr ''data'')] st;
                (l, st2) = alloc [(''text'', HRef t)] st1
            in (HRef l, st2))
         else if htruthy (s_timeUnit fieldDef) then
           (let (t, st1) = alloc [(''template'',
                  HStr (''{{ datum.data | time:'' @ [CHR 0x27] @ s_timeFormat fns model channel
                        @ [CHR 0x27] @ ''}}''))] st;
                (l, st2) = alloc [(''text'', HRef t)] st1
            in (HRef l, st2))
         else (HUndefined, st))
      else (HUndefined, st))"

definition properties_st ::
  "string \<Rightarrow> (SLegendFns \<Rightarrow> SFieldDef \<Rightarrow> hval \<Rightarrow> SUnitModel \<Rightarrow> Channel \<Rightarrow> store
              \<Rightarrow> hval \<times> store) option" where
  "properties_st grp =
     (if grp = ''symbols'' then Some symbols_st
      else if grp = ''labels'' then Some labels_st
      else None)"

text \<open>
  The callbacks of the two \<open>forEach\<close> loops of \<open>parseLegend\<close>, on the address \<open>def\<close>
  of the definition. The request is not \<open>undefined\<close> or \<open>null\<close> here (\<open>title\<close> has
  thrown otherwise). \<open>props\<close> is the value of
  \<open>(typeof legend !== 'boolean' && legend.properties) || {}\<close>.
\<close>

definition copyProperty_st :: "hval \<Rightarrow> nat \<Rightarrow> store \<Rightarrow> string \<Rightarrow> store" where
  "copyProperty_st legend def st property =
     (let val = hget st legend property
      in if val \<noteq> HUndefined then hset def property val st else st)"

definition requestedProps_st :: "hval \<Rightarrow> store \<Rightarrow> hval \<times> store" where
  "requestedProps_st legend st =
     (let requested = (if is_boolean legend then HBool False else hget st legend ''properties'')
      in if htruthy requested then (requested, st)
         else (let (ob, st1) = alloc [] st in (HRef ob, st1)))"

definition addGroup_st ::
  "SLegendFns \<Rightarrow> SFieldDef \<Rightarrow> hval \<Rightarrow> SUnitModel \<Rightarrow> Channel \<Rightarrow> nat
   \<Rightarrow> (error + unit) \<times> store \<Rightarrow> string \<Rightarrow> (error + unit) \<times> store" where
  "addGroup_st fns fieldDef props model channel def acc grp =
     (case acc of
        (Inl e, st) \<Rightarrow> (Inl e, st)
      | (Inr u, st) \<Rightarrow>
          (let (val, st1) =
                 (case properties_st grp of
                    Some rule \<Rightarrow> rule fns fieldDef (hget st props grp) model channel st
                  | None \<Rightarrow> (hget st props grp, st))
           in if val \<noteq> HUndefined \<and> length (hprops st1 val) > 0
              then
                (let (groups, st2) =
                       (if htruthy (hget st1 (HRef def) ''properties'')
                        then (hget st1 (HRef def) ''properties'', st1)
                        else (let (ob, s) = alloc [] st1 in (HRef ob, s)));
                     st3 = hset def ''properties'' groups st2
                 in case groups of
                      HRef g \<Rightarrow> (Inr (), hset g grp val st3)
                    | _ \<Rightarrow> (Inl TypeError, st3))
              else (Inr (), st1)))"

definition parseLegend_st ::
  "SLegendFns \<Rightarrow> SUnitModel \<Rightarrow> Channel \<Rightarrow> store \<Rightarrow> (error + hval) \<times> store" where
  "parseLegend_st fns model channel st =
     (let fieldDef = sm_fieldDef model channel;
          legend = sm_legend model channel;
          (d, st1) = getLegendDefWithScale_st model channel st
      in case d of
           HRef def \<Rightarrow>
             (case title_st fns legend fieldDef st1 of
                Inl e \<Rightarrow> (Inl e, st1)
              | Inr t \<Rightarrow>
                  (let st2 = hset def ''title'' t st1 in
                   case formatMixins_st fns legend model channel st2 of
                     (Inl e, st3) \<Rightarrow> (Inl e, st3)
                   | (Inr mixins, st3) \<Rightarrow>
                       (let st4 = hextend def mixins st3;
                            st5 = foldl (copyProperty_st legend def) st4 [''orient'', ''values''];
                            (props, st6) = requestedProps_st legend st5
                        in case foldl (addGroup_st fns fieldDef props model channel def)
                                  (Inr (), st6) [''title'', ''symbols'', ''legend'', ''labels''] of
                             (Inl e, st7) \<Rightarrow> (Inl e, st7)
                           | (Inr u, st7) \<Rightarrow> (Inr (HRef def), st7))))
         | _ \<Rightarrow> (Inl TypeError, st1))"

text \<open>
  \<open>parseLegendComponent\<close>: the accumulator of the \<open>reduce\<close> is the object its initial
  value \<open>{}\<close> allocates; a channel is a property name by its string.
\<close>

fun channel_string :: "Channel \<Rightarrow> string" where
  "channel_string X = ''x''"
| "channel_string Y = ''y''"
| "channel_string ROW = ''row''"
| "channel_string COLUMN = ''column''"
| "channel_string SHAPE = ''shape''"
| "channel_string SIZE = ''size''"
| "channel_string COLOR = ''color''"
| "channel_string TEXT_CHANNEL = ''text''"
| "channel_string DETAIL = ''detail''"
| "channel_string LABEL = ''label''"
| "channel_string PATH = ''path''"
| "channel_string ORDER = ''order''"

definition addLegend_st ::
  "SLegendFns \<Rightarrow> SUnitModel \<Rightarrow> nat \<Rightarrow> (error + unit) \<times> store \<Rightarrow> Channel
   \<Rightarrow> (error + unit) \<times> store" where
  "addLegend_st fns model legendComponent acc channel =
     (case acc of
        (Inl e, st) \<Rightarrow> (Inl e, st)
      | (Inr u, st) \<Rightarrow>
          (if htruthy (sm_legend model channel)
           then (case parseLegend_st fns model channel st of
                   (Inl e, st1) \<Rightarrow> (Inl e, st1)
                 | (Inr def, st1) \<Rightarrow>
                     (Inr (), hset legendComponent (channel_string channel) def st1))
           else (Inr (), st)))"

definition parseLegendComponent_st ::
  "SLegendFns \<Rightarrow> SUnitModel \<Rightarrow> store \<Rightarrow> (error + hval) \<times> store" where
  "parseLegendComponent_st fns model st =
     (let (legendComponent, st1) = alloc [] st
      in case foldl (addLegend_st fns model legendComponent) (Inr (), st1) [COLOR, SIZE, SHAPE] of
           (Inl e, st2) \<Rightarrow> (Inl e, st2)
         | (Inr u, st2) \<Rightarrow> (Inr (HRef legendComponent), st2))"

text \<open>
  The stages of \<open>symbols_st\<close>, named for the proofs: the \<open>switch\<close> on the mark, the
  stroke width, the \<open>value\<close> of the color channel, the write of the color, and
  \<open>symbolsSpec || {}\<close>. \<open>symbols_st_stages\<close> below shows that \<open>symbols_st\<close> is their
  composition.
\<close>

definition shape_st :: "Mark \<Rightarrow> nat \<Rightarrow> store \<Rightarrow> store" where
  "shape_st mark target st =
     (if mark = BAR \<or> mark = TICK \<or> mark = TEXT
      then hset target ''shape'' (HRef (length st)) (st @ [[(''value'', HStr ''square'')]])
      else if mark = CIRCLE \<or> mark = SQUARE
      then hset target ''shape'' (HRef (length st)) (st @ [[(''value'', HStr (mark_string mark))]])
      else st)"

definition width_st :: "hval \<Rightarrow> nat \<Rightarrow> store \<Rightarrow> store" where
  "width_st filled target st =
     (if htruthy filled
      then hset target ''strokeWidth'' (HRef (length st)) (st @ [[(''value'', HNum 0)]])
      else st)"

definition value_st :: "SFieldDef \<Rightarrow> SUnitModel \<Rightarrow> Channel \<Rightarrow> store \<Rightarrow> hval \<times> store" where
  "value_st fieldDef model channel st =
     (if sm_has model COLOR \<and> channel = COLOR
      then (if useColorLegendScale_st fieldDef
            then (HRef (length st),
                  st @ [[(''scale'', HStr (sm_scaleName model (ChannelScale COLOR))),
                         (''field'', HStr ''data'')]])
            else (HUndefined, st))
      else if htruthy (s_value (sm_fieldDef model COLOR))
      then (HRef (length st), st @ [[(''value'', s_value (sm_fieldDef model COLOR))]])
      else (HUndefined, st))"

definition color_st :: "SUnitModel \<Rightarrow> Channel \<Rightarrow> nat \<Rightarrow> hval \<Rightarrow> hval \<Rightarrow> store \<Rightarrow> store" where
  "color_st model channel target filled val st =
     (let fs = (if htruthy filled then ''fill'' else ''stroke'')
      in if val \<noteq> HUndefined
         then (if htruthy filled then hset target ''fill'' val st
               else hset target ''stroke'' val st)
         else if channel \<noteq> COLOR
         then (if htruthy (hget st (HRef target) fs)
               then hset target fs (hget st (HRef target) fs) st
               else hset target fs (HRef (length st))
                      (st @ [[(''value'', hget st (HRef (sm_configMark model)) ''color'')]]))
         else st)"

definition spec_st :: "hval \<Rightarrow> store \<Rightarrow> hval \<times> store" where
  "spec_st symbolsSpec st =
     (if htruthy symbolsSpec then (symbolsSpec, st) else (HRef (length st), st @ [[]]))"

text \<open>
  What the frame property asks of the two collaborators that work on the store:
  \<open>applyMarkConfig\<close> changes no object but the one it is handed, and the format-mixin
  resolver changes no object, and the object it returns has no truthy \<open>properties\<close>.
  Both may allocate.
\<close>

definition keeps :: "nat \<Rightarrow> store \<Rightarrow> store \<Rightarrow> bool" where
  "keeps n st st' = (length st \<le> length st' \<and> take n st' = take n st)"

definition applyMarkConfig_writes_its_object :: "SLegendFns \<Rightarrow> SUnitModel \<Rightarrow> bool" where
  "applyMarkConfig_writes_its_object fns model =
     (\<forall>a ps st n. n \<le> a \<and> a < length st \<longrightarrow> keeps n st (s_applyMarkConfig fns a model ps st))"

definition formatMixins_reads_only :: "SLegendFns \<Rightarrow> SUnitModel \<Rightarrow> bool" where
  "formatMixins_reads_only fns model =
     (\<forall>c f st. case s_utilFormatMixins fns model c f st of
        (m, st') \<Rightarrow> keeps (length st) st st' \<and> \<not> htruthy (hget st' m ''properties''))"

section \<open>Sample inputs\<close>

text \<open>
  Concrete inputs on which the theorems below are evaluated: an implementation of the
  three imported predicates (a measure is a quantitative field, a channel is bound when
  the encoding has a field definition for it, an encoding is aggregated when one of its
  field definitions has an aggregate), field definitions, and encodings.
\<close>

definition sample_fns :: EncodingFns where
  "sample_fns =
     \<lparr>isMeasure = (\<lambda>fd. case fd of None \<Rightarrow> False | Some d \<Rightarrow> type d = Some QUANTITATIVE),
      isAggregate = (\<lambda>enc. list_ex
         (\<lambda>c. case enc c of None \<Rightarrow> False | Some d \<Rightarrow> truthy (aggregate d))
         [X, Y, ROW, COLUMN, SHAPE, SIZE, COLOR, TEXT_CHANNEL, DETAIL, LABEL, PATH, ORDER]),
      has = (\<lambda>enc c. enc c \<noteq> None)\<rparr>"

definition sample_field :: "string \<Rightarrow> Type \<Rightarrow> FieldDef" where
  "sample_field name t =
     \<lparr>field = JStr name, type = Some t, bin = JUndefined, timeUnit = JUndefined,
      aggregate = JUndefined, fd_title = JUndefined, fd_value = JUndefined\<rparr>"

definition unbound :: FieldDef where
  "unbound =
     \<lparr>field = JUndefined, type = None, bin = JUndefined, timeUnit = JUndefined,
      aggregate = JUndefined, fd_title = JUndefined, fd_value = JUndefined\<rparr>"

definition sample_encoding :: "(Channel \<times> FieldDef) list \<Rightarrow> Encoding" where
  "sample_encoding bindings = map_of bindings"

text \<open>
  For the legend module: an implementation of its imported collaborators (the title of
  a field is its name; \<open>applyMarkConfig\<close> copies each listed property that the mark
  configuration defines, wrapped as \<open>{value: v}\<close>; the format mixins are the explicit
  format, if any), and a unit model built from a mark, the field definitions and legend
  requests of its channels, and a mark configuration.
\<close>

definition sample_legend_fns :: LegendFns where
  "sample_legend_fns =
     \<lparr>fieldTitle = (\<lambda>fd. field fd),
      applyMarkConfig = (\<lambda>marksProperties model propsList.
         foldl (\<lambda>acc property.
                  if get (config_mark (model_config model)) property \<noteq> JUndefined
                  then assign acc property
                         (JObj [(''value'', get (config_mark (model_config model)) property)])
                  else acc)
           marksProperties propsList),
      FILL_STROKE_CONFIG = [''fill'', ''fillOpacity'', ''stroke'', ''strokeWidth'',
                            ''strokeDash'', ''strokeDashOffset'', ''opacity''],
      utilFormatMixins = (\<lambda>model channel format.
         if format \<noteq> JUndefined then [(''format'', format)] else []),
      timeFormat = (\<lambda>model channel. ''%Y'')\<rparr>"

fun sample_scaleName :: "ScaleKey \<Rightarrow> string" where
  "sample_scaleName (ChannelScale COLOR) = ''color''"
| "sample_scaleName (ChannelScale SIZE) = ''size''"
| "sample_scaleName (ChannelScale SHAPE) = ''shape''"
| "sample_scaleName (ChannelScale c) = ''other''"
| "sample_scaleName COLOR_LEGEND = ''color_legend''"
| "sample_scaleName COLOR_LEGEND_LABEL = ''color_legend_label''"

definition sample_model ::
  "Mark \<Rightarrow> (Channel \<times> FieldDef) list \<Rightarrow> (Channel \<times> Legend) list \<Rightarrow> obj \<Rightarrow> UnitModel" where
  "sample_model mark fieldDefs legends markConfig =
     \<lparr>model_mark = mark,
      model_fieldDef = (\<lambda>c. case map_of fieldDefs c of None \<Rightarrow> unbound | Some d \<Rightarrow> d),
      model_legend = (\<lambda>c. case map_of legends c of None \<Rightarrow> NoLegend | Some l \<Rightarrow> l),
      model_scaleName = sample_scaleName,
      model_has = (\<lambda>c. map_of fieldDefs c \<noteq> None),
      model_config = \<lparr>config_mark = markConfig\<rparr>\<rparr>"

text \<open>
  Three unit models. In the first the color channel has an ordinal field and a legend
  request with a format and with overrides for the symbols and the labels group; in the
  second it has a binned quantitative field and a request with a format; the third
  requests a legend for color (\<open>true\<close>) and size (an empty object) and refuses one for
  shape (\<open>false\<close>).
\<close>

definition ordinal_color_model :: UnitModel where
  "ordinal_color_model =
     sample_model POINT [(COLOR, sample_field ''a'' ORDINAL)]
       [(COLOR, LegendProps
          [(''format'', JStr ''d''),
           (''properties'', JObj
              [(''labels'', JObj [(''text'', JObj [(''value'', JStr ''x'')]),
                                  (''fill'', JObj [(''value'', JStr ''red'')])]),
               (''symbols'', JObj [(''shape'', JObj [(''value'', JStr ''diamond'')])])])])]
       [(''filled'', JBool False), (''color'', JStr ''blue'')]"

definition binned_color_model :: UnitModel where
  "binned_color_model =
     sample_model BAR [(COLOR, (sample_field ''a'' QUANTITATIVE)\<lparr>bin := JBool True\<rparr>)]
       [(COLOR, LegendProps [(''format'', JStr ''d'')])]
       [(''filled'', JBool True), (''color'', JStr ''blue'')]"

definition three_channel_model :: UnitModel where
  "three_channel_model =
     sample_model POINT
       [(COLOR, sample_field ''a'' ORDINAL), (SIZE, sample_field ''b'' QUANTITATIVE),
        (SHAPE, sample_field ''c'' NOMINAL)]
       [(COLOR, LegendFlag True), (SIZE, LegendProps []), (SHAPE, LegendFlag False)]
       [(''filled'', JBool False), (''color'', JStr ''blue'')]"

text \<open>
  A fourth model: an unfilled point mark whose color channel has a quantitative field
  that is neither binned nor has a time unit, a legend requested by \<open>true\<close>, and a mark
  configuration without colors.
\<close>

definition plain_color_model :: UnitModel where
  "plain_color_model =
     sample_model POINT [(COLOR, sample_field ''a'' QUANTITATIVE)] [(COLOR, LegendFlag True)]
       [(''filled'', JBool False)]"

text \<open>
  For the translation on a store: a store that holds the mark configuration, an encoding
  with a quantitative field on x, and the legend request of \<open>ordinal_color_model\<close> with
  its overrides; implementations of the imported predicates and collaborators that do on
  the store what the ones above do on values; and the unit model that goes with them.
  \<open>reify\<close> reads a value back from the store, to the given depth.
\<close>

definition sample_store :: store where
  "sample_store =
     [[(''filled'', HBool False), (''color'', HStr ''blue'')],
      [(''x'', HRef 2)],
      [(''field'', HStr ''a''), (''type'', HStr ''quantitative'')],
      [(''format'', HStr ''d''), (''properties'', HRef 4)],
      [(''labels'', HRef 5), (''symbols'', HRef 8)],
      [(''text'', HRef 6), (''fill'', HRef 7)],
      [(''value'', HStr ''x'')],
      [(''value'', HStr ''red'')],
      [(''shape'', HRef 9)],
      [(''value'', HStr ''diamond'')]]"

definition sample_store_encoding_fns :: SEncodingFns where
  "sample_store_encoding_fns =
     \<lparr>s_isMeasure = (\<lambda>st fd. hget st fd ''type'' = HStr ''quantitative''),
      s_isAggregate = (\<lambda>st enc. list_ex
         (\<lambda>c. htruthy (hget st (hget st (HRef enc) (channel_string c)) ''aggregate''))
         [X, Y, ROW, COLUMN, SHAPE, SIZE, COLOR, TEXT_CHANNEL, DETAIL, LABEL, PATH, ORDER]),
      s_has = (\<lambda>st enc c. hget st (HRef enc) (channel_string c) \<noteq> HUndefined)\<rparr>"

definition sample_store_fns :: SLegendFns where
  "sample_store_fns =
     \<lparr>s_fieldTitle = (\<lambda>fd. HStr ''a''),
      s_applyMarkConfig = (\<lambda>marksProperties model propsList st.
         foldl (\<lambda>s property.
                  if hget s (HRef (sm_configMark model)) property \<noteq> HUndefined
                  then hset marksProperties property (HRef (length s))
                         (s @ [[(''value'', hget s (HRef (sm_configMark model)) property)]])
                  else s)
           st propsList),
      s_FILL_STROKE_CONFIG = [''fill'', ''fillOpacity'', ''stroke'', ''strokeWidth'',
                              ''strokeDash'', ''strokeDashOffset'', ''opacity''],
      s_utilFormatMixins = (\<lambda>model channel format st.
         if format \<noteq> HUndefined then (HRef (length st), st @ [[(''format'', format)]])
         else (HRef (length st), st @ [[]])),
      s_timeFormat = (\<lambda>model channel. ''%Y'')\<rparr>"

definition sample_store_model :: SUnitModel where
  "sample_store_model =
     \<lparr>sm_mark = POINT,
      sm_fieldDef = (\<lambda>c. if c = COLOR
         then \<lparr>s_type = Some ORDINAL, s_bin = HUndefined, s_timeUnit = HUndefined,
               s_value = HUndefined\<rparr>
         else \<lparr>s_type = None, s_bin = HUndefined, s_timeUnit = HUndefined,
               s_value = HUndefined\<rparr>),
      sm_legend = (\<lambda>c. if c = COLOR then HRef 3 else HUndefined),
      sm_scaleName = sample_scaleName,
      sm_has = (\<lambda>c. c = COLOR),
      sm_configMark = 0\<rparr>"

fun reify :: "nat \<Rightarrow> store \<Rightarrow> hval \<Rightarrow> jsval" where
  "reify depth st HUndefined = JUndefined"
| "reify depth st HNull = JNull"
| "reify depth st (HBool b) = JBool b"
| "reify depth st (HNum n) = JNum n"
| "reify depth st (HStr s) = JStr s"
| "reify 0 st (HRef a) = JObj []"
| "reify (Suc depth) st (HRef a) =
     JObj (map (\<lambda>(k, v). (k, reify depth st v)) (hprops st (HRef a)))"

section \<open>Objects: reads after writes\<close>

lemma map_of_assign:
  "map_of (assign ob k v) k' = (if k' = k then Some v else map_of ob k')"
  by (induction ob) auto

lemma get_assign: "get (assign ob k v) k' = (if k' = k then v else get ob k')"
  by (simp add: get_def map_of_assign)

lemma map_of_fold_assign:
  "map_of (fold (\<lambda>name acc. assign acc name (f name)) ks ob) k =
     (if k \<in> set ks then Some (f k) else map_of ob k)"
  by (induction ks arbitrary: ob) (auto simp: map_of_assign)

lemma map_of_extend:
  "map_of (extend ob src) k = (if k \<in> set (keys src) then Some (get src k) else map_of ob k)"
  by (simp add: extend_def map_of_fold_assign)

lemma map_of_extend_own:
  "map_of (extend ob src) k = (case map_of src k of None \<Rightarrow> map_of ob k | Some v \<Rightarrow> Some v)"
proof (cases "map_of src k")
  case None
  then have "k \<notin> set (keys src)"
    by (simp add: keys_def map_of_eq_None_iff)
  with None show ?thesis by (simp add: map_of_extend)
next
  case (Some v)
  then have "k \<in> set (keys src)"
    by (force simp: keys_def dest: map_of_SomeD)
  with Some show ?thesis by (simp add: map_of_extend get_def)
qed

lemma get_extend:
  "get (extend ob src) k = (case map_of src k of None \<Rightarrow> get ob k | Some v \<Rightarrow> v)"
  by (simp add: get_def map_of_extend_own split: option.splits)

lemma get_Nil: "get [] k = JUndefined"
  by (simp add: get_def)

lemma get_Cons: "get ((k', v) # kvs) k = (if k' = k then v else get kvs k)"
  by (simp add: get_def)



lemma present_map_of: "get ob k \<noteq> JUndefined \<Longrightarrow> map_of ob k = Some (get ob k)"
  by (auto simp: get_def split: option.splits)

lemma falsy_entries: "\<not> truthy v \<Longrightarrow> entries v = []"
  by (cases v) auto

section \<open>Legends: the two loops of \<open>parseLegend\<close>\<close>

lemma copyProperty_lookup:
  "map_of (copyProperty legend d p) k =
     (if k = p \<and> (\<exists>lp. legend = LegendProps lp \<and> get lp p \<noteq> JUndefined)
      then map_of (case legend of LegendProps lp \<Rightarrow> lp | _ \<Rightarrow> []) p
      else map_of d k)"
  by (auto simp: copyProperty_def Let_def map_of_assign present_map_of split: Legend.splits)

lemma copyProperty_other:
  "k \<noteq> p \<Longrightarrow> map_of (copyProperty legend d p) k = map_of d k"
  by (simp add: copyProperty_lookup)

lemma addGroup_other:
  assumes "addGroup fns fieldDef legend model channel (Inr d) grp = Inr d'"
    and "k \<noteq> ''properties''"
  shows "map_of d' k = map_of d k"
  using assms
  by (auto simp: addGroup_def Let_def map_of_assign split: if_splits jsval.splits)

lemma addGroup_groups:
  assumes "addGroup fns fieldDef legend model channel (Inr d) grp = Inr d'"
  shows "get (entries (get d' ''properties'')) g =
     (if g = grp \<and> emitted (groupValue fns fieldDef legend model channel grp)
      then groupValue fns fieldDef legend model channel grp
      else get (entries (get d ''properties'')) g)"
  using assms
  by (auto simp: addGroup_def Let_def get_assign falsy_entries get_Nil get_Cons
      split: if_splits jsval.splits)

lemma addGroup_ok:
  assumes "groups_ok d"
  shows "\<exists>d'. addGroup fns fieldDef legend model channel (Inr d) grp = Inr d' \<and> groups_ok d'"
  using assms
  by (auto simp: addGroup_def Let_def groups_ok_def get_assign)

lemma foldl_addGroup_ok:
  assumes "groups_ok d"
  shows "\<exists>d'. foldl (addGroup fns fieldDef legend model channel) (Inr d) gs = Inr d'
               \<and> groups_ok d'"
  using assms
proof (induction gs arbitrary: d)
  case Nil
  then show ?case by simp
next
  case (Cons g gs)
  from addGroup_ok[OF Cons.prems] obtain d1 where
    "addGroup fns fieldDef legend model channel (Inr d) g = Inr d1" "groups_ok d1"
    by blast
  with Cons.IH[of d1] show ?case by simp
qed

lemma foldl_addGroup_Inl:
  "foldl (addGroup fns fieldDef legend model channel) (Inl e) gs = Inl e"
  by (induction gs) (auto simp: addGroup_def)

lemma foldl_addGroup_other:
  assumes "foldl (addGroup fns fieldDef legend model channel) (Inr d) gs = Inr d'"
    and "k \<noteq> ''properties''"
  shows "map_of d' k = map_of d k"
  using assms
proof (induction gs arbitrary: d)
  case Nil
  then show ?case by simp
next
  case (Cons g gs)
  show ?case
  proof (cases "addGroup fns fieldDef legend model channel (Inr d) g")
    case (Inl e)
    with Cons.prems show ?thesis by (simp add: foldl_addGroup_Inl)
  next
    case (Inr d1)
    with Cons.prems Cons.IH[of d1] addGroup_other[OF Inr] show ?thesis by simp
  qed
qed

section \<open>Legends: \<open>parseLegend\<close> as a whole\<close>


lemma parseLegend_Inr:
  assumes "parseLegend fns model channel = Inr def"
  obtains def0 t mixins where
    "getLegendDefWithScale model channel = Some def0"
    "title fns (model_legend model channel) (model_fieldDef model channel) = Inr t"
    "formatMixins fns (model_legend model channel) model channel = Inr mixins"
    "foldl (addGroup fns (model_fieldDef model channel) (model_legend model channel) model channel)
       (Inr (foldl (copyProperty (model_legend model channel))
                (extend (assign def0 ''title'' t) mixins) [''orient'', ''values'']))
       [''title'', ''symbols'', ''legend'', ''labels''] = Inr def"
  using assms
  by (auto simp: parseLegend_def Let_def split: option.splits sum.splits)

lemma parseLegend_lookup:
  assumes "parseLegend fns model channel = Inr def"
    and "getLegendDefWithScale model channel = Some def0"
    and "formatMixins fns (model_legend model channel) model channel = Inr mixins"
    and "k \<notin> {''title'', ''orient'', ''values'', ''properties''}"
  shows "map_of def k = (case map_of mixins k of None \<Rightarrow> map_of def0 k | Some v \<Rightarrow> Some v)"
proof -
  from parseLegend_Inr[OF assms(1)] assms(2,3) obtain t where
    f: "foldl (addGroup fns (model_fieldDef model channel) (model_legend model channel) model channel)
       (Inr (foldl (copyProperty (model_legend model channel))
                (extend (assign def0 ''title'' t) mixins) [''orient'', ''values'']))
       [''title'', ''symbols'', ''legend'', ''labels''] = Inr def"
    by auto
  from assms(4) have k: "k \<noteq> ''properties''" "k \<noteq> ''orient''" "k \<noteq> ''values''" "k \<noteq> ''title''"
    by auto
  have "map_of def k = map_of (foldl (copyProperty (model_legend model channel))
                (extend (assign def0 ''title'' t) mixins) [''orient'', ''values'']) k"
    using foldl_addGroup_other[OF f k(1)] .
  also have "\<dots> = map_of (extend (assign def0 ''title'' t) mixins) k"
    using k by (simp add: copyProperty_other)
  also have "\<dots> = (case map_of mixins k of None \<Rightarrow> map_of def0 k | Some v \<Rightarrow> Some v)"
    using k by (simp add: map_of_extend_own map_of_assign split: option.splits)
  finally show ?thesis .
qed

lemma getLegendDefWithScale_Some:
  assumes "getLegendDefWithScale model channel = Some def0"
  shows "channel \<in> {COLOR, SIZE, SHAPE} \<and>
         (\<exists>k v. def0 = [(k, v)] \<and> k \<in> {''fill'', ''stroke'', ''size'', ''shape''})"
  using assms
  by (auto simp: getLegendDefWithScale_def Let_def split: Channel.splits if_splits)

lemma symbols_indep: "symbols (fns\<lparr>utilFormatMixins := g\<rparr>) = symbols fns"
  by (simp add: fun_eq_iff symbols_def cong: if_cong)

lemma labels_indep: "labels (fns\<lparr>utilFormatMixins := g\<rparr>) = labels fns"
  by (simp add: fun_eq_iff labels_def)

lemma groupValue_indep: "groupValue (fns\<lparr>utilFormatMixins := g\<rparr>) = groupValue fns"
  by (simp add: fun_eq_iff groupValue_def properties_def symbols_indep labels_indep)

lemma addGroup_indep: "addGroup (fns\<lparr>utilFormatMixins := g\<rparr>) = addGroup fns"
  by (simp add: fun_eq_iff addGroup_def groupValue_indep Let_def cong: sum.case_cong)

lemma title_indep: "title (fns\<lparr>utilFormatMixins := g\<rparr>) = title fns"
  by (simp add: fun_eq_iff title_def split: Legend.splits)

lemma title_returns: "legend \<noteq> NoLegend \<Longrightarrow> \<exists>t. title fns legend fieldDef = Inr t"
  by (cases legend) (auto simp: title_def)

lemma formatMixins_returns:
  assumes "legend \<noteq> NoLegend"
  shows "\<exists>mixins. formatMixins fns legend model channel = Inr mixins \<and>
           (mixins = [] \<or> (\<exists>f. mixins = utilFormatMixins fns model channel f))"
  using assms by (cases legend) (auto simp: formatMixins_def Let_def)

lemma getLegendDefWithScale_returns:
  assumes "channel \<in> {COLOR, SIZE, SHAPE}"
  shows "\<exists>k v. getLegendDefWithScale model channel = Some [(k, v)]
           \<and> k \<in> {''fill'', ''stroke'', ''size'', ''shape''}"
  using assms by (auto simp: getLegendDefWithScale_def Let_def)

lemma parseLegend_returns:
  assumes "legend_truthy (model_legend model channel)"
    and "channel \<in> {COLOR, SIZE, SHAPE}"
    and "\<forall>f. map_of (utilFormatMixins fns model channel f) ''properties'' = None"
  shows "\<exists>def. parseLegend fns model channel = Inr def"
proof -
  let ?legend = "model_legend model channel"
  let ?fd = "model_fieldDef model channel"
  from assms(1) have nl: "?legend \<noteq> NoLegend" by auto
  from getLegendDefWithScale_returns[OF assms(2)] obtain k v where
    d0: "getLegendDefWithScale model channel = Some [(k, v)]"
    and k: "k \<in> {''fill'', ''stroke'', ''size'', ''shape''}"
    by blast
  from title_returns[OF nl] obtain t where t: "title fns ?legend ?fd = Inr t" by blast
  from formatMixins_returns[OF nl] obtain mixins where
    m: "formatMixins fns ?legend model channel = Inr mixins"
    and mm: "mixins = [] \<or> (\<exists>f. mixins = utilFormatMixins fns model channel f)"
    by blast
  from mm assms(3) have mp: "map_of mixins ''properties'' = None"
    by auto
  let ?def2 = "extend (assign [(k, v)] ''title'' t) mixins"
  let ?def3 = "foldl (copyProperty ?legend) ?def2 [''orient'', ''values'']"
  have "k \<noteq> ''properties''" using k by auto
  then have "map_of ?def2 ''properties'' = None"
    using mp by (simp add: map_of_extend_own map_of_assign)
  then have "map_of ?def3 ''properties'' = None"
    by (simp add: copyProperty_other)
  then have "groups_ok ?def3"
    by (simp only: groups_ok_def get_def option.case truthy.simps simp_thms)
  from foldl_addGroup_ok[OF this] obtain d' where
    "foldl (addGroup fns ?fd ?legend model channel) (Inr ?def3)
       [''title'', ''symbols'', ''legend'', ''labels''] = Inr d'"
    by blast
  then have "parseLegend fns model channel = Inr d'"
    by (simp only: parseLegend_def Let_def d0 t m option.case sum.case)
  then show ?thesis ..
qed

section \<open>Legends: the symbols group\<close>

lemma symbols_stages:
  "symbols fns fieldDef symbolsSpec model channel =
     (let symbols5 = extend (symbolsGenerated fns fieldDef model channel)
                       (entries (if truthy symbolsSpec then symbolsSpec else JObj []))
      in if length (keys symbols5) > 0 then JObj symbols5 else JUndefined)"
  unfolding symbols_def symbolsGenerated_def symbolsBase_def symbolsValue_def fillOrStroke_def
    Let_def
  by (simp cong: if_cong)

lemma keys_iff: "k \<in> set (keys ob) \<longleftrightarrow> map_of ob k \<noteq> None"
  by (simp add: keys_def map_of_eq_None_iff)

lemma or_empty_entries: "entries (if truthy v then v else JObj []) = entries v"
  by (simp add: falsy_entries)

lemma symbols_merge:
  "symbols fns fieldDef symbolsSpec model channel =
     (if extend (symbolsGenerated fns fieldDef model channel) (entries symbolsSpec) = []
      then JUndefined
      else JObj (extend (symbolsGenerated fns fieldDef model channel) (entries symbolsSpec)))"
  by (simp add: symbols_stages or_empty_entries Let_def keys_def)

lemma symbolsValue_other:
  "channel \<noteq> COLOR \<Longrightarrow> symbolsValue fieldDef model channel =
     (if truthy (fd_value (model_fieldDef model COLOR))
      then JObj [(''value'', fd_value (model_fieldDef model COLOR))] else JUndefined)"
  by (simp add: symbolsValue_def)

lemma symbolsGenerated_color_key:
  assumes "channel \<noteq> COLOR"
  shows "map_of (symbolsGenerated fns fieldDef model channel) (fillOrStroke model) \<noteq> None"
  using assms by (simp add: symbolsGenerated_def Let_def map_of_assign)

lemma symbols_color_key:
  assumes "channel \<noteq> COLOR"
  shows "\<exists>s. symbols fns fieldDef symbolsSpec model channel = JObj s
             \<and> fillOrStroke model \<in> set (keys s)"
proof -
  let ?s = "extend (symbolsGenerated fns fieldDef model channel) (entries symbolsSpec)"
  have k: "map_of ?s (fillOrStroke model) \<noteq> None"
    using symbolsGenerated_color_key[OF assms, of fns fieldDef model]
    by (auto simp: map_of_extend_own split: option.splits)
  then have "?s \<noteq> []" by auto
  then have "symbols fns fieldDef symbolsSpec model channel = JObj ?s"
    by (simp add: symbols_merge)
  with k show ?thesis
    by (auto simp: keys_iff)
qed

lemma addGroup_Inl: "addGroup fns fieldDef legend model channel (Inl e) grp = Inl e"
  by (simp add: addGroup_def)

lemma addGroup_Inr_acc:
  assumes "addGroup fns fieldDef legend model channel acc grp = Inr d'"
  shows "\<exists>d. acc = Inr d"
  using assms by (cases acc) (auto simp: addGroup_def)

lemma foldl_addGroup_groups:
  assumes "foldl (addGroup fns fieldDef legend model channel) (Inr d) gs = Inr d'"
    and "g \<notin> set gs"
  shows "get (entries (get d' ''properties'')) g = get (entries (get d ''properties'')) g"
  using assms
proof (induction gs arbitrary: d)
  case Nil
  then show ?case by simp
next
  case (Cons x gs)
  show ?case
  proof (cases "addGroup fns fieldDef legend model channel (Inr d) x")
    case (Inl e)
    with Cons.prems show ?thesis by (simp add: foldl_addGroup_Inl)
  next
    case (Inr d1)
    with Cons.prems Cons.IH[of d1] addGroup_groups[OF Inr, of g] show ?thesis by simp
  qed
qed

lemma parseLegend_symbols_group:
  assumes "parseLegend fns model channel = Inr def"
    and "emitted (groupValue fns (model_fieldDef model channel) (model_legend model channel)
                    model channel ''symbols'')"
  shows "get (entries (get def ''properties'')) ''symbols'' =
           groupValue fns (model_fieldDef model channel) (model_legend model channel)
             model channel ''symbols''"
proof -
  let ?f = "addGroup fns (model_fieldDef model channel) (model_legend model channel) model channel"
  from parseLegend_Inr[OF assms(1)] obtain d3 where
    f: "foldl ?f (Inr d3) [''title'', ''symbols'', ''legend'', ''labels''] = Inr def"
    by blast
  then have f2: "foldl ?f (?f (?f (Inr d3) ''title'') ''symbols'') [''legend'', ''labels''] = Inr def"
    by simp
  obtain d2 where d2: "?f (?f (Inr d3) ''title'') ''symbols'' = Inr d2"
  proof (cases "?f (?f (Inr d3) ''title'') ''symbols''")
    case (Inl e)
    with f2 show ?thesis by (simp add: addGroup_Inl)
  next
    case (Inr d) then show ?thesis using that by blast
  qed
  from addGroup_Inr_acc[OF d2] obtain d1 where d1: "?f (Inr d3) ''title'' = Inr d1"
    by blast
  from d2 d1 have s: "?f (Inr d1) ''symbols'' = Inr d2" by simp
  have "get (entries (get def ''properties'')) ''symbols''
          = get (entries (get d2 ''properties'')) ''symbols''"
    using foldl_addGroup_groups[of fns _ _ model channel d2 "[''legend'', ''labels'']" "def" "''symbols''"]
      f2 d2 by simp
  also have "\<dots> = groupValue fns (model_fieldDef model channel) (model_legend model channel)
             model channel ''symbols''"
    using addGroup_groups[OF s, of "''symbols''"] assms(2) by simp
  finally show ?thesis .
qed

lemma groupValue_symbols:
  "groupValue fns fieldDef legend model channel ''symbols'' =
     symbols fns fieldDef (override legend ''symbols'') model channel"
  by (simp add: groupValue_def properties_def)

lemma groupValue_labels:
  "groupValue fns fieldDef legend model channel ''labels'' =
     labels fns fieldDef (override legend ''labels'') model channel"
  by (simp add: groupValue_def properties_def)

text \<open>
  When the symbols rule yields nothing to emit and the format mixins define no
  \<open>properties\<close>, the compiled legend has no symbols group.
\<close>

lemma parseLegend_no_symbols_group:
  assumes p: "parseLegend fns model channel = Inr def"
    and ne: "\<not> emitted (groupValue fns (model_fieldDef model channel) (model_legend model channel)
                    model channel ''symbols'')"
    and m: "formatMixins fns (model_legend model channel) model channel = Inr mixins"
    and mp: "map_of mixins ''properties'' = None"
  shows "get (entries (get def ''properties'')) ''symbols'' = JUndefined"
proof -
  let ?f = "addGroup fns (model_fieldDef model channel) (model_legend model channel) model channel"
  from parseLegend_Inr[OF p] obtain def0 t mixins' where
    d0: "getLegendDefWithScale model channel = Some def0"
    and m': "formatMixins fns (model_legend model channel) model channel = Inr mixins'"
    and f': "foldl ?f (Inr (foldl (copyProperty (model_legend model channel))
                (extend (assign def0 ''title'' t) mixins') [''orient'', ''values'']))
              [''title'', ''symbols'', ''legend'', ''labels''] = Inr def"
    by blast
  from m m' have "mixins' = mixins"
    by simp
  with f' have f: "foldl ?f (Inr (foldl (copyProperty (model_legend model channel))
                (extend (assign def0 ''title'' t) mixins) [''orient'', ''values'']))
              [''title'', ''symbols'', ''legend'', ''labels''] = Inr def"
    by (simp only:)
  let ?d3 = "foldl (copyProperty (model_legend model channel))
                (extend (assign def0 ''title'' t) mixins) [''orient'', ''values'']"
  from getLegendDefWithScale_Some[OF d0] have "map_of def0 ''properties'' = None"
    by auto
  then have "map_of ?d3 ''properties'' = None"
    using mp by (simp add: copyProperty_other map_of_extend_own map_of_assign)
  then have g3: "get (entries (get ?d3 ''properties'')) ''symbols'' = JUndefined"
    by (simp add: get_def)
  from f have f2: "foldl ?f (?f (?f (Inr ?d3) ''title'') ''symbols'') [''legend'', ''labels''] = Inr def"
    by simp
  obtain d2 where d2: "?f (?f (Inr ?d3) ''title'') ''symbols'' = Inr d2"
  proof (cases "?f (?f (Inr ?d3) ''title'') ''symbols''")
    case (Inl e)
    with f2 show ?thesis by (simp add: addGroup_Inl)
  next
    case (Inr d)
    then show ?thesis using that by blast
  qed
  from addGroup_Inr_acc[OF d2] obtain d1 where d1: "?f (Inr ?d3) ''title'' = Inr d1"
    by blast
  from d2 d1 have s: "?f (Inr d1) ''symbols'' = Inr d2" by simp
  have "get (entries (get def ''properties'')) ''symbols''
          = get (entries (get d2 ''properties'')) ''symbols''"
    using foldl_addGroup_groups[of fns _ _ model channel d2 "[''legend'', ''labels'']" "def" "''symbols''"]
      f2 d2 by simp
  also have "\<dots> = get (entries (get d1 ''properties'')) ''symbols''"
    using addGroup_groups[OF s, of "''symbols''"] ne by simp
  also have "\<dots> = get (entries (get ?d3 ''properties'')) ''symbols''"
    using addGroup_groups[OF d1, of "''symbols''"] by simp
  finally show ?thesis
    using g3 by simp
qed

section \<open>Mark defaults: what the rules leave in the accumulator\<close>




lemma rules_align:
  "map_of (foldl (markRule fns mark encoding config) []
      [''filled'', ''opacity'', ''orient'', ''align'']) ''align'' =
   (if get (config_mark config) ''align'' = JUndefined
    then Some (JStr (if has fns encoding X then ''center'' else ''right'')) else None)"
  by (simp add: markRule_def Let_def map_of_assign)

text \<open>
  The merge that ends \<open>initMarkConfig\<close> copies every property of \<open>config.mark\<close> over
  the rules' results: a property of the base configuration wins, whatever it is bound to.
\<close>

lemma initMarkConfig_lookup:
  "map_of (initMarkConfig fns mark encoding config) k =
     (case map_of (config_mark config) k of
        None \<Rightarrow> map_of (foldl (markRule fns mark encoding config) []
                   [''filled'', ''opacity'', ''orient'', ''align'']) k
      | Some v \<Rightarrow> Some v)"
  unfolding initMarkConfig_def by (simp only: map_of_extend_own)

section \<open>Mark defaults: the claims\<close>

text \<open>
  Claim C3. For each of the four properties \<open>filled\<close>, \<open>opacity\<close>, \<open>orient\<close> and \<open>align\<close>:
  when the base configuration \<open>config.mark\<close> binds the property to a value other than
  \<open>undefined\<close>, the resolved mark configuration binds it to exactly that value, for every
  mark, encoding and base configuration, whichever rule fires. (This holds for \<open>orient\<close>
  too: the final merge copies the base value over the rule's \<open>horizontal\<close>.)
\<close>

theorem initMarkConfig_keeps_explicit:
  assumes "property \<in> set [''filled'', ''opacity'', ''orient'', ''align'']"
    and "get (config_mark config) property \<noteq> JUndefined"
  shows "get (initMarkConfig fns mark encoding config) property
           = get (config_mark config) property"
proof -
  have "map_of (config_mark config) property = Some (get (config_mark config) property)"
    using assms(2) by (rule present_map_of)
  then have "map_of (initMarkConfig fns mark encoding config) property
               = Some (get (config_mark config) property)"
    by (simp only: initMarkConfig_lookup option.case)
  then show ?thesis
    by (simp add: get_def)
qed

text \<open>
  At a bar with a measure on x only (the rule sets \<open>horizontal\<close>) and a base configuration
  that says \<open>vertical\<close>, the result says \<open>vertical\<close>.
\<close>

theorem initMarkConfig_keeps_explicit_witness:
  "''orient'' \<in> set [''filled'', ''opacity'', ''orient'', ''align''] \<and>
   get (config_mark \<lparr>config_mark = [(''orient'', JStr ''vertical'')]\<rparr>) ''orient'' \<noteq> JUndefined \<and>
   isMeasure sample_fns (sample_encoding [(X, sample_field ''a'' QUANTITATIVE)] X) \<and>
   \<not> isMeasure sample_fns (sample_encoding [(X, sample_field ''a'' QUANTITATIVE)] Y) \<and>
   get (initMarkConfig sample_fns BAR
          (sample_encoding [(X, sample_field ''a'' QUANTITATIVE)])
          \<lparr>config_mark = [(''orient'', JStr ''vertical'')]\<rparr>) ''orient''
     = JStr ''vertical''"
  using initMarkConfig_keeps_explicit
    [where property = "''orient''"
       and config = "\<lparr>config_mark = [(''orient'', JStr ''vertical'')]\<rparr>"
       and fns = sample_fns and mark = BAR
       and encoding = "sample_encoding [(X, sample_field ''a'' QUANTITATIVE)]"]
  by (simp add: get_def sample_fns_def sample_encoding_def sample_field_def)










section \<open>Legends: the claims\<close>

text \<open>
  Claim C2. For the color channel the legend definition consists of one scale reference.
  The scale is the color-legend scale (\<open>COLOR_LEGEND\<close>) exactly when the field's type is
  ordinal, or the field is binned, or it has a time unit, and the color scale otherwise.
  The reference stands under \<open>fill\<close> when the mark configuration's \<open>filled\<close> is truthy
  and under \<open>stroke\<close> otherwise. The compiled legend carries the same reference, as
  long as the format mixins do not define that property themselves.
\<close>

theorem color_legend_scale:
  "getLegendDefWithScale model COLOR =
     Some [(if truthy (get (config_mark (model_config model)) ''filled'')
            then ''fill'' else ''stroke'',
            JStr (model_scaleName model
              (if type (model_fieldDef model COLOR) = Some ORDINAL
                  \<or> truthy (bin (model_fieldDef model COLOR))
                  \<or> truthy (timeUnit (model_fieldDef model COLOR))
               then COLOR_LEGEND else ChannelScale COLOR)))] \<and>
   (\<forall>def mixins.
      parseLegend fns model COLOR = Inr def \<and>
      formatMixins fns (model_legend model COLOR) model COLOR = Inr mixins \<and>
      map_of mixins (if truthy (get (config_mark (model_config model)) ''filled'')
                     then ''fill'' else ''stroke'') = None \<longrightarrow>
      map_of def (if truthy (get (config_mark (model_config model)) ''filled'')
                  then ''fill'' else ''stroke'') =
        Some (JStr (model_scaleName model
              (if type (model_fieldDef model COLOR) = Some ORDINAL
                  \<or> truthy (bin (model_fieldDef model COLOR))
                  \<or> truthy (timeUnit (model_fieldDef model COLOR))
               then COLOR_LEGEND else ChannelScale COLOR))))"
proof -
  let ?fs = "if truthy (get (config_mark (model_config model)) ''filled'')
             then ''fill'' else ''stroke''"
  let ?scale = "model_scaleName model
              (if type (model_fieldDef model COLOR) = Some ORDINAL
                  \<or> truthy (bin (model_fieldDef model COLOR))
                  \<or> truthy (timeUnit (model_fieldDef model COLOR))
               then COLOR_LEGEND else ChannelScale COLOR)"
  have d0: "getLegendDefWithScale model COLOR = Some [(?fs, JStr ?scale)]"
    by (simp add: getLegendDefWithScale_def useColorLegendScale_def Let_def)
  have k: "?fs \<notin> {''title'', ''orient'', ''values'', ''properties''}"
    by simp
  have "map_of def ?fs = Some (JStr ?scale)"
    if "parseLegend fns model COLOR = Inr def"
      and "formatMixins fns (model_legend model COLOR) model COLOR = Inr mixins"
      and "map_of mixins ?fs = None" for "def" mixins
    using parseLegend_lookup[OF that(1) d0 that(2) k] that(3) by simp
  with d0 show ?thesis
    by blast
qed

text \<open>
  An ordinal color field on an unfilled mark: \<open>stroke\<close> and the color-legend scale,
  in the scale definition and in the compiled legend. A quantitative color field that
  is neither binned nor has a time unit, on a filled mark: \<open>fill\<close> and the color scale.
\<close>

theorem color_legend_scale_witness:
  "getLegendDefWithScale ordinal_color_model COLOR = Some [(''stroke'', JStr ''color_legend'')] \<and>
   getLegendDefWithScale
     (sample_model BAR [(COLOR, sample_field ''a'' QUANTITATIVE)] [(COLOR, LegendFlag True)]
        [(''filled'', JBool True)]) COLOR = Some [(''fill'', JStr ''color'')] \<and>
   formatMixins sample_legend_fns (model_legend ordinal_color_model COLOR)
     ordinal_color_model COLOR = Inr [(''format'', JStr ''d'')] \<and>
   (case parseLegend sample_legend_fns ordinal_color_model COLOR of
      Inl e \<Rightarrow> False
    | Inr def \<Rightarrow> map_of def ''stroke'' = Some (JStr ''color_legend''))"
proof -
  let ?plain = "sample_model BAR [(COLOR, sample_field ''a'' QUANTITATIVE)]
                  [(COLOR, LegendFlag True)] [(''filled'', JBool True)]"
  have t: "type (model_fieldDef ordinal_color_model COLOR) = Some ORDINAL"
    "\<not> truthy (get (config_mark (model_config ordinal_color_model)) ''filled'')"
    "model_scaleName ordinal_color_model COLOR_LEGEND = ''color_legend''"
    by code_simp+
  have u: "type (model_fieldDef ?plain COLOR) = Some QUANTITATIVE"
    "\<not> truthy (bin (model_fieldDef ?plain COLOR))"
    "\<not> truthy (timeUnit (model_fieldDef ?plain COLOR))"
    "truthy (get (config_mark (model_config ?plain)) ''filled'')"
    "model_scaleName ?plain (ChannelScale COLOR) = ''color''"
    by code_simp+
  have m: "formatMixins sample_legend_fns (model_legend ordinal_color_model COLOR)
     ordinal_color_model COLOR = Inr [(''format'', JStr ''d'')]"
    by code_simp
  have d: "parseLegend sample_legend_fns ordinal_color_model COLOR =
    Inr [(''stroke'', JStr ''color_legend''), (''title'', JStr ''a''), (''format'', JStr ''d''),
         (''properties'', JObj
            [(''symbols'', JObj
                [(''stroke'', JObj [(''scale'', JStr ''color''), (''field'', JStr ''data'')]),
                 (''shape'', JObj [(''value'', JStr ''diamond'')])]),
             (''labels'', JObj
                [(''text'', JObj [(''scale'', JStr ''color_legend''),
                                  (''field'', JStr ''data'')])])])]"
    by code_simp
  show ?thesis
    using color_legend_scale[of ordinal_color_model sample_legend_fns]
      color_legend_scale[of ?plain sample_legend_fns] t u m d
    by simp
qed

text \<open>
  Claim C7. When the field of the channel is binned, \<open>formatMixins\<close> returns the empty
  object whatever the legend request is (also one with a format): the compiled legend
  has no \<open>format\<close> property, and it is the same legend whatever the format-mixin
  resolver would have returned. When the field is not binned, \<open>formatMixins\<close> returns
  what the resolver returns for the request's \<open>format\<close> (for \<open>undefined\<close> when the
  request is a boolean).
\<close>

theorem binned_no_format:
  "(truthy (bin (model_fieldDef model channel)) \<longrightarrow>
      formatMixins fns legend model channel = Inr [] \<and>
      (\<forall>def. parseLegend fns model channel = Inr def \<longrightarrow> map_of def ''format'' = None) \<and>
      (\<forall>g. parseLegend (fns\<lparr>utilFormatMixins := g\<rparr>) model channel
             = parseLegend fns model channel)) \<and>
   (\<not> truthy (bin (model_fieldDef model channel)) \<longrightarrow>
      formatMixins fns (LegendProps lp) model channel
        = Inr (utilFormatMixins fns model channel (get lp ''format'')) \<and>
      formatMixins fns (LegendFlag b) model channel
        = Inr (utilFormatMixins fns model channel JUndefined))"
proof (intro conjI impI allI)
  assume b: "truthy (bin (model_fieldDef model channel))"
  show m: "formatMixins fns legend model channel = Inr []" for legend
    using b by (simp add: formatMixins_def)
  show "map_of def ''format'' = None" if p: "parseLegend fns model channel = Inr def" for "def"
  proof -
    from parseLegend_Inr[OF p] obtain def0 where
      d0: "getLegendDefWithScale model channel = Some def0"
      by auto
    from getLegendDefWithScale_Some[OF d0] have "map_of def0 ''format'' = None"
      by auto
    with parseLegend_lookup[OF p d0 m, of "''format''"] show ?thesis
      by simp
  qed
  show "parseLegend (fns\<lparr>utilFormatMixins := g\<rparr>) model channel = parseLegend fns model channel"
    for g
  proof -
    have 1: "formatMixins (fns\<lparr>utilFormatMixins := g\<rparr>) legend model channel = Inr []"
      for legend
      using b by (simp add: formatMixins_def)
    show ?thesis
      unfolding parseLegend_def title_indep addGroup_indep 1 m ..
  qed
next
  assume "\<not> truthy (bin (model_fieldDef model channel))"
  then show "formatMixins fns (LegendProps lp) model channel
        = Inr (utilFormatMixins fns model channel (get lp ''format''))"
    and "formatMixins fns (LegendFlag b) model channel
        = Inr (utilFormatMixins fns model channel JUndefined)"
    by (simp_all add: formatMixins_def)
qed

text \<open>
  A binned color field with the format \<open>d\<close> requested: no mixins, no \<open>format\<close> in the
  legend, and the same legend with a resolver that always answers \<open>s\<close>. The ordinal
  color field, not binned: the resolver's answer for \<open>d\<close>, and for no format.
\<close>

theorem binned_no_format_witness:
  "truthy (bin (model_fieldDef binned_color_model COLOR)) \<and>
   model_legend binned_color_model COLOR = LegendProps [(''format'', JStr ''d'')] \<and>
   formatMixins sample_legend_fns (LegendProps [(''format'', JStr ''d'')])
     binned_color_model COLOR = Inr [] \<and>
   (case parseLegend sample_legend_fns binned_color_model COLOR of
      Inl e \<Rightarrow> False
    | Inr def \<Rightarrow> map_of def ''format'' = None) \<and>
   parseLegend (sample_legend_fns\<lparr>utilFormatMixins := (\<lambda>model channel format. [(''format'', JStr ''s'')])\<rparr>)
     binned_color_model COLOR = parseLegend sample_legend_fns binned_color_model COLOR \<and>
   \<not> truthy (bin (model_fieldDef ordinal_color_model COLOR)) \<and>
   formatMixins sample_legend_fns (LegendProps [(''format'', JStr ''d'')])
     ordinal_color_model COLOR = Inr [(''format'', JStr ''d'')] \<and>
   formatMixins sample_legend_fns (LegendFlag True) ordinal_color_model COLOR = Inr []"
proof -
  have b: "truthy (bin (model_fieldDef binned_color_model COLOR))"
    "model_legend binned_color_model COLOR = LegendProps [(''format'', JStr ''d'')]"
    "\<not> truthy (bin (model_fieldDef ordinal_color_model COLOR))"
    by code_simp+
  have u: "utilFormatMixins sample_legend_fns ordinal_color_model COLOR
             (get [(''format'', JStr ''d'')] ''format'') = [(''format'', JStr ''d'')]"
    "utilFormatMixins sample_legend_fns ordinal_color_model COLOR JUndefined = []"
    by code_simp+
  have d: "parseLegend sample_legend_fns binned_color_model COLOR =
    Inr [(''fill'', JStr ''color_legend''), (''title'', JStr ''a''),
         (''properties'', JObj
            [(''symbols'', JObj
                [(''shape'', JObj [(''value'', JStr ''square'')]),
                 (''strokeWidth'', JObj [(''value'', JNum 0)]),
                 (''fill'', JObj [(''scale'', JStr ''color''), (''field'', JStr ''data'')])]),
             (''labels'', JObj
                [(''text'', JObj [(''scale'', JStr ''color_legend_label''),
                                  (''field'', JStr ''data'')])])])]"
    by code_simp
  show ?thesis
    using
      binned_no_format[of binned_color_model COLOR sample_legend_fns
        "LegendProps [(''format'', JStr ''d'')]"]
      binned_no_format[of ordinal_color_model COLOR sample_legend_fns _
        "[(''format'', JStr ''d'')]" True]
      b u d
    by simp
qed

text \<open>
  Claim C8. \<open>parseLegendComponent\<close> goes through the channels color, size and shape, in
  this order. When it returns, the channels of its result are exactly those of the three
  whose legend request is truthy, and the entry of each is what \<open>parseLegend\<close> returns
  for it; a channel with a falsy request (\<open>undefined\<close> or \<open>false\<close>) has no entry. It
  does return whenever the format mixins define no \<open>properties\<close>.
\<close>

theorem parseLegendComponent_entries:
 "(\<forall>out. parseLegendComponent fns model = Inr out \<longrightarrow>
     (\<forall>c. (c \<in> set (map fst out)) = (c \<in> {COLOR, SIZE, SHAPE} \<and> legend_truthy (model_legend model c))) \<and>
     (\<forall>c def. map_of out c = Some def \<longrightarrow> parseLegend fns model c = Inr def))
  \<and> ((\<forall>c f. map_of (utilFormatMixins fns model c f) ''properties'' = None) \<longrightarrow>
       (\<exists>out. parseLegendComponent fns model = Inr out))"
proof (intro conjI allI impI)
  fix out c
  assume "parseLegendComponent fns model = Inr out"
  then show "(c \<in> set (map fst out)) = (c \<in> {COLOR, SIZE, SHAPE} \<and> legend_truthy (model_legend model c))"
    by (auto simp: parseLegendComponent_def addLegend_def split: if_splits sum.splits)
next
  fix out c "def"
  assume "parseLegendComponent fns model = Inr out" "map_of out c = Some def"
  then show "parseLegend fns model c = Inr def"
    by (auto simp: parseLegendComponent_def addLegend_def split: if_splits sum.splits)
next
  assume a: "\<forall>c f. map_of (utilFormatMixins fns model c f) ''properties'' = None"
  have r: "legend_truthy (model_legend model c) \<Longrightarrow> c \<in> {COLOR, SIZE, SHAPE} \<Longrightarrow> \<exists>d. parseLegend fns model c = Inr d" for c
    using parseLegend_returns[of model c fns] a by blast
  show "\<exists>out. parseLegendComponent fns model = Inr out"
    using r[of COLOR] r[of SIZE] r[of SHAPE]
    by (auto simp: parseLegendComponent_def addLegend_def split: if_splits sum.splits)
qed

text \<open>
  Legends requested for color and size and refused for shape: the result has the
  entries color and size, each the legend \<open>parseLegend\<close> compiles.
\<close>

theorem parseLegendComponent_entries_witness:
  "(\<forall>c f. map_of (utilFormatMixins sample_legend_fns three_channel_model c f) ''properties'' = None) \<and>
   (case parseLegendComponent sample_legend_fns three_channel_model of
      Inl e \<Rightarrow> False
    | Inr out \<Rightarrow>
        map fst out = [COLOR, SIZE] \<and>
        legend_truthy (model_legend three_channel_model COLOR) \<and>
        legend_truthy (model_legend three_channel_model SIZE) \<and>
        \<not> legend_truthy (model_legend three_channel_model SHAPE) \<and>
        map_of out SIZE = Some [(''size'', JStr ''size''), (''title'', JStr ''b''),
          (''properties'', JObj [(''symbols'', JObj [(''stroke'', JObj [(''value'', JStr ''blue'')])])])] \<and>
        parseLegend sample_legend_fns three_channel_model SIZE = Inr [(''size'', JStr ''size''), (''title'', JStr ''b''),
          (''properties'', JObj [(''symbols'', JObj [(''stroke'', JObj [(''value'', JStr ''blue'')])])])])"
proof -
  have h: "\<forall>c f. map_of (utilFormatMixins sample_legend_fns three_channel_model c f) ''properties'' = None"
    by (simp add: sample_legend_fns_def)
  have l: "legend_truthy (model_legend three_channel_model COLOR)"
        "legend_truthy (model_legend three_channel_model SIZE)"
        "\<not> legend_truthy (model_legend three_channel_model SHAPE)"
    by code_simp+
  have e: "parseLegendComponent sample_legend_fns three_channel_model =
    Inr [(COLOR,
       [(''stroke'', JStr ''color_legend''), (''title'', JStr ''a''),
        (''properties'', JObj
          [(''symbols'', JObj
             [(''stroke'', JObj [(''scale'', JStr ''color''), (''field'', JStr ''data'')])]),
           (''labels'', JObj
             [(''text'', JObj [(''scale'', JStr ''color_legend''), (''field'', JStr ''data'')])])])]),
      (SIZE,
       [(''size'', JStr ''size''), (''title'', JStr ''b''),
        (''properties'', JObj
          [(''symbols'', JObj [(''stroke'', JObj [(''value'', JStr ''blue'')])])])])]"
    by code_simp
  show ?thesis
    using parseLegendComponent_entries[of sample_legend_fns three_channel_model] h l e
    by simp
qed

text \<open>
  Claim C10. The symbols rule runs for every legend \<open>parseLegend\<close> compiles, on every
  channel and whether or not the request has a symbols override: whenever the rule's
  value (for the override of the request, \<open>undefined\<close> if there is none) is an object
  with a property, it is the \<open>symbols\<close> group of the legend's \<open>properties\<close>, and when
  it is not (and the format mixins define no \<open>properties\<close>) the legend has no symbols
  group. On a channel other than color the rule's value always is an object, with a
  \<open>fill\<close> property when the mark is filled and a \<open>stroke\<close> property when it is not,
  whatever the override is, so every legend compiled for such a channel has it as its
  symbols group. When the color channel has no constant value, the mark configuration
  has put no truthy value there and the override does not define it, that property is
  \<open>{value: config.mark.color}\<close>.
\<close>

theorem symbols_group_present:
  "(\<forall>def. parseLegend fns model channel = Inr def \<and>
           emitted (symbols fns (model_fieldDef model channel)
                      (override (model_legend model channel) ''symbols'') model channel) \<longrightarrow>
      get (entries (get def ''properties'')) ''symbols'' =
        symbols fns (model_fieldDef model channel)
          (override (model_legend model channel) ''symbols'') model channel) \<and>
   (\<forall>def mixins. parseLegend fns model channel = Inr def \<and>
           \<not> emitted (symbols fns (model_fieldDef model channel)
                        (override (model_legend model channel) ''symbols'') model channel) \<and>
           formatMixins fns (model_legend model channel) model channel = Inr mixins \<and>
           map_of mixins ''properties'' = None \<longrightarrow>
      get (entries (get def ''properties'')) ''symbols'' = JUndefined) \<and>
   (channel \<noteq> COLOR \<longrightarrow>
      (\<exists>s. symbols fns fieldDef symbolsSpec model channel = JObj s
             \<and> fillOrStroke model \<in> set (keys s)) \<and>
      (\<forall>def. parseLegend fns model channel = Inr def \<longrightarrow>
         get (entries (get def ''properties'')) ''symbols'' =
           symbols fns (model_fieldDef model channel)
             (override (model_legend model channel) ''symbols'') model channel) \<and>
      (\<not> truthy (fd_value (model_fieldDef model COLOR)) \<and>
       \<not> truthy (get (symbolsBase fns model channel) (fillOrStroke model)) \<and>
       map_of (entries symbolsSpec) (fillOrStroke model) = None \<longrightarrow>
         get (entries (symbols fns fieldDef symbolsSpec model channel)) (fillOrStroke model)
           = JObj [(''value'', get (config_mark (model_config model)) ''color'')]))"
proof -
  let ?v = "symbols fns (model_fieldDef model channel)
                (override (model_legend model channel) ''symbols'') model channel"
  have run: "get (entries (get def ''properties'')) ''symbols'' = ?v"
    if "parseLegend fns model channel = Inr def" and "emitted ?v" for "def"
    using parseLegend_symbols_group[OF that(1)] that(2) by (simp add: groupValue_symbols)
  have none: "get (entries (get def ''properties'')) ''symbols'' = JUndefined"
    if "parseLegend fns model channel = Inr def" and "\<not> emitted ?v"
      and "formatMixins fns (model_legend model channel) model channel = Inr mixins"
      and "map_of mixins ''properties'' = None" for "def" mixins
    using parseLegend_no_symbols_group[OF that(1) _ that(3) that(4)] that(2)
    by (simp add: groupValue_symbols)
  have other: "(\<exists>s. symbols fns fieldDef symbolsSpec model channel = JObj s
             \<and> fillOrStroke model \<in> set (keys s)) \<and>
      (\<forall>def. parseLegend fns model channel = Inr def \<longrightarrow>
         get (entries (get def ''properties'')) ''symbols'' = ?v) \<and>
      (\<not> truthy (fd_value (model_fieldDef model COLOR)) \<and>
       \<not> truthy (get (symbolsBase fns model channel) (fillOrStroke model)) \<and>
       map_of (entries symbolsSpec) (fillOrStroke model) = None \<longrightarrow>
         get (entries (symbols fns fieldDef symbolsSpec model channel)) (fillOrStroke model)
           = JObj [(''value'', get (config_mark (model_config model)) ''color'')])"
    if c: "channel \<noteq> COLOR"
  proof (intro conjI allI impI)
    show "\<exists>s. symbols fns fieldDef symbolsSpec model channel = JObj s
               \<and> fillOrStroke model \<in> set (keys s)"
      using c by (rule symbols_color_key)
  next
    fix "def"
    assume p: "parseLegend fns model channel = Inr def"
    from symbols_color_key[OF c] obtain s where
      "?v = JObj s" "fillOrStroke model \<in> set (keys s)"
      by blast
    then have "emitted ?v"
      by (auto simp: emitted_def)
    with run[OF p] show "get (entries (get def ''properties'')) ''symbols'' = ?v" .
  next
    assume a: "\<not> truthy (fd_value (model_fieldDef model COLOR)) \<and>
            \<not> truthy (get (symbolsBase fns model channel) (fillOrStroke model)) \<and>
            map_of (entries symbolsSpec) (fillOrStroke model) = None"
    let ?s = "extend (symbolsGenerated fns fieldDef model channel) (entries symbolsSpec)"
    from symbols_color_key[OF c, of fns fieldDef symbolsSpec model]
    have "symbols fns fieldDef symbolsSpec model channel = JObj ?s"
      by (auto simp: symbols_merge split: if_splits)
    moreover have "get ?s (fillOrStroke model)
        = JObj [(''value'', get (config_mark (model_config model)) ''color'')]"
      using a c
      by (simp add: get_extend symbolsGenerated_def symbolsValue_other get_assign Let_def)
    ultimately show
      "get (entries (symbols fns fieldDef symbolsSpec model channel)) (fillOrStroke model)
         = JObj [(''value'', get (config_mark (model_config model)) ''color'')]"
      by simp
  qed
  from run none other show ?thesis
    by blast
qed

text \<open>
  The color legend of an ordinal field requested by \<open>true\<close>: the symbols group is the
  rule's \<open>{stroke: {scale: "color", field: "data"}}\<close>. The color legend of a plain
  quantitative field on an unfilled point without configured colors: the rule yields
  nothing and there is no symbols group. The size legend of an unfilled point mark whose
  request has no overrides: the symbols group is \<open>{stroke: {value: "blue"}}\<close>, blue
  being the configured color.
\<close>

theorem symbols_group_present_witness:
  "emitted (symbols sample_legend_fns (model_fieldDef three_channel_model COLOR)
              (override (model_legend three_channel_model COLOR) ''symbols'')
              three_channel_model COLOR) \<and>
   override (model_legend three_channel_model COLOR) ''symbols'' = JUndefined \<and>
   (case parseLegend sample_legend_fns three_channel_model COLOR of
      Inl e \<Rightarrow> False
    | Inr def \<Rightarrow>
        get (entries (get def ''properties'')) ''symbols''
          = JObj [(''stroke'', JObj [(''scale'', JStr ''color''), (''field'', JStr ''data'')])]) \<and>
   \<not> emitted (symbols sample_legend_fns (model_fieldDef plain_color_model COLOR)
                (override (model_legend plain_color_model COLOR) ''symbols'')
                plain_color_model COLOR) \<and>
   formatMixins sample_legend_fns (model_legend plain_color_model COLOR)
     plain_color_model COLOR = Inr [] \<and>
   (case parseLegend sample_legend_fns plain_color_model COLOR of
      Inl e \<Rightarrow> False
    | Inr def \<Rightarrow> get (entries (get def ''properties'')) ''symbols'' = JUndefined) \<and>
   SIZE \<noteq> COLOR \<and>
   fillOrStroke three_channel_model = ''stroke'' \<and>
   override (model_legend three_channel_model SIZE) ''symbols'' = JUndefined \<and>
   symbols sample_legend_fns (model_fieldDef three_channel_model SIZE) JUndefined
     three_channel_model SIZE = JObj [(''stroke'', JObj [(''value'', JStr ''blue'')])] \<and>
   (case parseLegend sample_legend_fns three_channel_model SIZE of
      Inl e \<Rightarrow> False
    | Inr def \<Rightarrow>
        get (entries (get def ''properties'')) ''symbols''
          = JObj [(''stroke'', JObj [(''value'', JStr ''blue'')])]) \<and>
   \<not> truthy (fd_value (model_fieldDef three_channel_model COLOR)) \<and>
   \<not> truthy (get (symbolsBase sample_legend_fns three_channel_model SIZE) ''stroke'') \<and>
   map_of (entries JUndefined) ''stroke'' = None \<and>
   get (config_mark (model_config three_channel_model)) ''color'' = JStr ''blue''"
proof -
  have c: "override (model_legend three_channel_model COLOR) ''symbols'' = JUndefined"
    "symbols sample_legend_fns (model_fieldDef three_channel_model COLOR) JUndefined
       three_channel_model COLOR
     = JObj [(''stroke'', JObj [(''scale'', JStr ''color''), (''field'', JStr ''data'')])]"
    "emitted (JObj [(''stroke'', JObj [(''scale'', JStr ''color''), (''field'', JStr ''data'')])])"
    by code_simp+
  have cd: "parseLegend sample_legend_fns three_channel_model COLOR =
    Inr [(''stroke'', JStr ''color_legend''), (''title'', JStr ''a''),
         (''properties'', JObj
            [(''symbols'', JObj
                [(''stroke'', JObj [(''scale'', JStr ''color''), (''field'', JStr ''data'')])]),
             (''labels'', JObj
                [(''text'', JObj [(''scale'', JStr ''color_legend''),
                                  (''field'', JStr ''data'')])])])]"
    by code_simp
  have p: "override (model_legend plain_color_model COLOR) ''symbols'' = JUndefined"
    "symbols sample_legend_fns (model_fieldDef plain_color_model COLOR) JUndefined
       plain_color_model COLOR = JUndefined"
    "\<not> emitted JUndefined"
    "formatMixins sample_legend_fns (model_legend plain_color_model COLOR)
       plain_color_model COLOR = Inr []"
    by code_simp+
  have pd: "parseLegend sample_legend_fns plain_color_model COLOR =
    Inr [(''stroke'', JStr ''color''), (''title'', JStr ''a'')]"
    by code_simp
  have a: "fillOrStroke three_channel_model = ''stroke''"
    "override (model_legend three_channel_model SIZE) ''symbols'' = JUndefined"
    "\<not> truthy (fd_value (model_fieldDef three_channel_model COLOR))"
    "\<not> truthy (get (symbolsBase sample_legend_fns three_channel_model SIZE) ''stroke'')"
    "get (config_mark (model_config three_channel_model)) ''color'' = JStr ''blue''"
    by code_simp+
  have s: "symbols sample_legend_fns (model_fieldDef three_channel_model SIZE) JUndefined
     three_channel_model SIZE = JObj [(''stroke'', JObj [(''value'', JStr ''blue'')])]"
    by code_simp
  have d: "parseLegend sample_legend_fns three_channel_model SIZE =
    Inr [(''size'', JStr ''size''), (''title'', JStr ''b''),
         (''properties'', JObj
            [(''symbols'', JObj [(''stroke'', JObj [(''value'', JStr ''blue'')])])])]"
    by code_simp
  show ?thesis
    using
      symbols_group_present
        [of sample_legend_fns three_channel_model COLOR
            "model_fieldDef three_channel_model COLOR" JUndefined]
      symbols_group_present
        [of sample_legend_fns plain_color_model COLOR
            "model_fieldDef plain_color_model COLOR" JUndefined]
      symbols_group_present
        [of sample_legend_fns three_channel_model SIZE
            "model_fieldDef three_channel_model SIZE" JUndefined]
      c cd p pd a s d
    by simp
qed

text \<open>
  The symbols group merges: the compiled group is the generated object merged with the
  override. A property of the override wins, every other generated property stays, and
  every property of the override is there.
\<close>

lemma symbols_override_wins:
  assumes "symbols fns fieldDef (JObj spec) model channel = JObj s"
  shows "map_of s k =
           (case map_of spec k of
              None \<Rightarrow> map_of (symbolsGenerated fns fieldDef model channel) k
            | Some v \<Rightarrow> Some v)"
  using assms
  by (auto simp: symbols_merge map_of_extend_own split: if_splits)

text \<open>
  The labels group does not merge: \<open>properties.labels\<close> never reads the override it is
  handed, so the compiled labels group is the generated value alone.
\<close>

lemma labels_ignores_override:
  "labels fns fieldDef symbolsSpec model channel = labels fns fieldDef JUndefined model channel"
  by (simp add: labels_def)

text \<open>
  Claim C1 (an override wins per key over the generated group, keys of both are kept)
  fails for the labels group. The color legend of an ordinal field is requested with
  the labels override \<open>{text: {value: "x"}, fill: {value: "red"}}\<close>. The rule generates
  \<open>{text: {scale: "color_legend", field: "data"}}\<close>, and that is the compiled labels
  group: on \<open>text\<close> the override does not win, and \<open>fill\<close> is not there. The symbols
  override \<open>{shape: {value: "diamond"}}\<close> of the same request is merged.
\<close>

theorem labels_override_dropped:
  "override (model_legend ordinal_color_model COLOR) ''labels'' =
     JObj [(''text'', JObj [(''value'', JStr ''x'')]),
           (''fill'', JObj [(''value'', JStr ''red'')])] \<and>
   parseLegend sample_legend_fns ordinal_color_model COLOR =
     Inr [(''stroke'', JStr ''color_legend''), (''title'', JStr ''a''), (''format'', JStr ''d''),
          (''properties'', JObj
             [(''symbols'', JObj
                 [(''stroke'', JObj [(''scale'', JStr ''color''), (''field'', JStr ''data'')]),
                  (''shape'', JObj [(''value'', JStr ''diamond'')])]),
              (''labels'', JObj
                 [(''text'', JObj [(''scale'', JStr ''color_legend''),
                                   (''field'', JStr ''data'')])])])]"
  by code_simp

section \<open>The store: what a call leaves unchanged\<close>

text \<open>
  \<open>keeps n st st'\<close> says that the store \<open>st'\<close> has at least the objects of \<open>st\<close> and
  that the first \<open>n\<close> objects are the same in both. A write to an address from \<open>n\<close> on
  and an allocation keep the first \<open>n\<close> objects.
\<close>

lemma keeps_refl: "keeps n st st"
  by (simp add: keeps_def)

lemma keeps_trans: "keeps n a b \<Longrightarrow> keeps n b c \<Longrightarrow> keeps n a c"
  by (simp add: keeps_def)

lemma keeps_mono:
  assumes "keeps m st st'" and "n \<le> m"
  shows "keeps n st st'"
proof -
  have "take n st' = take n (take m st')" "take n st = take n (take m st)"
    using assms(2) by (simp_all add: min_absorb1)
  moreover have "take m st' = take m st" "length st \<le> length st'"
    using assms(1) by (simp_all add: keeps_def)
  ultimately show ?thesis
    by (simp only: keeps_def simp_thms)
qed

lemma keeps_length: "keeps n st st' \<Longrightarrow> length st \<le> length st'"
  by (simp add: keeps_def)

lemma keeps_nth:
  assumes "keeps n st st'" and "a < n"
  shows "st' ! a = st ! a"
proof -
  from assms(2) have "st' ! a = take n st' ! a" "st ! a = take n st ! a"
    by simp_all
  with assms(1) show ?thesis
    by (simp add: keeps_def)
qed

lemma length_hset: "length (hset a k v st) = length st"
  by (simp add: hset_def)

lemma keeps_hset: "n \<le> a \<Longrightarrow> keeps n st (hset a k v st)"
  by (simp add: keeps_def hset_def)

lemma keeps_alloc: "n \<le> length st \<Longrightarrow> keeps n st (st @ [ob])"
  by (simp add: keeps_def)

lemma keeps_fold_hset:
  "n \<le> a \<Longrightarrow> keeps n st (fold (\<lambda>name s. hset a name (f s name) s) ks st)"
proof (induction ks arbitrary: st)
  case Nil
  then show ?case by (simp add: keeps_refl)
next
  case (Cons k ks)
  have "keeps n st (hset a k (f st k) st)"
    using Cons.prems by (rule keeps_hset)
  moreover have "keeps n (hset a k (f st k) st)
      (fold (\<lambda>name s. hset a name (f s name) s) ks (hset a k (f st k) st))"
    using Cons.prems by (rule Cons.IH)
  ultimately show ?case
    by (simp add: keeps_trans)
qed

lemma keeps_hextend: "n \<le> a \<Longrightarrow> keeps n st (hextend a src st)"
  unfolding hextend_def by (rule keeps_fold_hset)

lemma keeps_markRule_st:
  "n \<le> cfg \<Longrightarrow> keeps n st (markRule_st fns mark encoding configMark cfg st property)"
  by (simp add: markRule_st_def Let_def keeps_hset keeps_refl)

lemma keeps_foldl_markRule_st:
  "n \<le> cfg \<Longrightarrow> keeps n st (foldl (markRule_st fns mark encoding configMark cfg) st ps)"
proof (induction ps arbitrary: st)
  case Nil
  then show ?case by (simp add: keeps_refl)
next
  case (Cons p ps)
  show ?case
    using keeps_trans[OF keeps_markRule_st[OF Cons.prems] Cons.IH[OF Cons.prems]]
    by simp
qed

lemma initMarkConfig_st_frame:
  assumes "initMarkConfig_st fns mark encoding configMark st = (cfg, st')"
  shows "cfg = length st \<and> keeps (length st) st st'"
proof -
  let ?st2 = "foldl (markRule_st fns mark encoding configMark (length st)) (st @ [[]])
                  [''filled'', ''opacity'', ''orient'', ''align'']"
  from assms have c: "cfg = length st" and s: "st' = hextend (length st) (HRef configMark) ?st2"
    by (auto simp: initMarkConfig_st_def alloc_def)
  have "keeps (length st) st (st @ [[]])"
    by (simp add: keeps_alloc)
  moreover have "keeps (length st) (st @ [[]]) ?st2"
    by (rule keeps_foldl_markRule_st) simp
  moreover have "keeps (length st) ?st2 st'"
    unfolding s by (rule keeps_hextend) simp
  ultimately have "keeps (length st) st st'"
    by (meson keeps_trans)
  with c show ?thesis
    by simp
qed


lemma symbols_st_stages:
  "symbols_st fns fieldDef symbolsSpec model channel st0 =
     (let target = length st0;
          st2 = shape_st (sm_mark model) target (st0 @ [[]]);
          filled = hget st2 (HRef (sm_configMark model)) ''filled'';
          st3 = s_applyMarkConfig fns target model
            (if channel = COLOR
             then without (s_FILL_STROKE_CONFIG fns)
                    [if htruthy filled then ''fill'' else ''stroke'']
             else s_FILL_STROKE_CONFIG fns) st2;
          st4 = width_st filled target st3;
          vs = value_st fieldDef model channel st4;
          st6 = color_st model channel target filled (fst vs) (snd vs);
          ss = spec_st symbolsSpec st6;
          st8 = hextend target (fst ss) (snd ss)
      in (if length (hprops st8 (HRef target)) > 0 then HRef target else HUndefined, st8))"
  unfolding symbols_st_def shape_st_def width_st_def value_st_def color_st_def spec_st_def
    alloc_def Let_def case_prod_beta fst_conv snd_conv
  by (rule refl)

lemma keeps_shape_st:
  "n \<le> a \<Longrightarrow> n \<le> length st \<Longrightarrow> keeps n st (shape_st mark a st)"
  by (auto simp: shape_st_def intro: keeps_trans[OF keeps_alloc keeps_hset] keeps_refl)

lemma keeps_width_st:
  "n \<le> a \<Longrightarrow> n \<le> length st \<Longrightarrow> keeps n st (width_st filled a st)"
  by (auto simp: width_st_def intro: keeps_trans[OF keeps_alloc keeps_hset] keeps_refl)

lemma keeps_value_st:
  "n \<le> length st \<Longrightarrow> keeps n st (snd (value_st fieldDef model channel st))"
  by (auto simp: value_st_def intro: keeps_alloc keeps_refl)

lemma keeps_color_st:
  "n \<le> a \<Longrightarrow> n \<le> length st \<Longrightarrow> keeps n st (color_st model channel a filled val st)"
  by (auto simp: color_st_def Let_def intro: keeps_trans[OF keeps_alloc keeps_hset] keeps_refl keeps_hset)

lemma keeps_spec_st:
  "n \<le> length st \<Longrightarrow> keeps n st (snd (spec_st symbolsSpec st))"
  by (auto simp: spec_st_def intro: keeps_alloc keeps_refl)

lemma symbols_st_frame:
  assumes "applyMarkConfig_writes_its_object fns model"
    and "symbols_st fns fieldDef symbolsSpec model channel st0 = (v, st')"
  shows "keeps (length st0) st0 st'"
proof -
  let ?n = "length st0"
  let ?st1 = "st0 @ [[]]"
  let ?st2 = "shape_st (sm_mark model) ?n ?st1"
  let ?filled = "hget ?st2 (HRef (sm_configMark model)) ''filled''"
  let ?ps = "if channel = COLOR
             then without (s_FILL_STROKE_CONFIG fns)
                    [if htruthy ?filled then ''fill'' else ''stroke'']
             else s_FILL_STROKE_CONFIG fns"
  let ?st3 = "s_applyMarkConfig fns ?n model ?ps ?st2"
  let ?st4 = "width_st ?filled ?n ?st3"
  let ?vs = "value_st fieldDef model channel ?st4"
  let ?st6 = "color_st model channel ?n ?filled (fst ?vs) (snd ?vs)"
  let ?ss = "spec_st symbolsSpec ?st6"
  let ?st8 = "hextend ?n (fst ?ss) (snd ?ss)"
  have r: "st' = ?st8"
    using assms(2) by (simp add: symbols_st_stages Let_def)
  have k1: "keeps ?n st0 ?st1"
    by (simp add: keeps_alloc)
  have k2: "keeps ?n ?st1 ?st2"
    by (rule keeps_shape_st) simp_all
  note k02 = keeps_trans[OF k1 k2]
  have "?n < length ?st2"
    using keeps_length[OF k2] by simp
  then have k3: "keeps ?n ?st2 ?st3"
    using assms(1) by (simp add: applyMarkConfig_writes_its_object_def)
  note k03 = keeps_trans[OF k02 k3]
  have k4: "keeps ?n ?st3 ?st4"
    by (rule keeps_width_st) (use keeps_length[OF k03] in simp_all)
  note k04 = keeps_trans[OF k03 k4]
  have k5: "keeps ?n ?st4 (snd ?vs)"
    by (rule keeps_value_st) (use keeps_length[OF k04] in simp)
  note k05 = keeps_trans[OF k04 k5]
  have k6: "keeps ?n (snd ?vs) ?st6"
    by (rule keeps_color_st) (use keeps_length[OF k05] in simp_all)
  note k06 = keeps_trans[OF k05 k6]
  have k7: "keeps ?n ?st6 (snd ?ss)"
    by (rule keeps_spec_st) (use keeps_length[OF k06] in simp)
  note k07 = keeps_trans[OF k06 k7]
  have k8: "keeps ?n (snd ?ss) ?st8"
    by (rule keeps_hextend) simp
  show ?thesis
    unfolding r by (rule keeps_trans[OF k07 k8])
qed

lemma labels_st_frame:
  assumes "labels_st fns fieldDef symbolsSpec model channel st = (v, st')"
  shows "keeps (length st) st st'"
  using assms
  by (auto simp: labels_st_def alloc_def keeps_def split: if_splits)

text \<open>
  Reads after writes on the store, and the steps of \<open>parseLegend\<close> one by one. The
  object \<open>def.properties\<close> is written to; the loop over the groups keeps it fresh (an
  address from \<open>n\<close> on) once it is falsy or fresh at the start, which it is when the
  format mixins have no truthy \<open>properties\<close>.
\<close>

lemma hprops_hset:
  "hprops (hset a k v st) (HRef b) =
     (if b = a \<and> a < length st then assign (st ! a) k v else hprops st (HRef b))"
  by (simp add: hset_def)

lemma hget_hset:
  "hget (hset a k v st) (HRef b) k' =
     (if b = a \<and> a < length st \<and> k' = k then v else hget st (HRef b) k')"
  by (cases "b = a") (auto simp: hget_def hset_def map_of_assign)

lemma hget_hset_prim: "\<forall>a. w \<noteq> HRef a \<Longrightarrow> hget (hset a k v st) w k' = hget st w k'"
  by (cases w) (simp_all add: hget_def)

lemma hget_append: "b < length st \<Longrightarrow> hget (st @ [ob]) (HRef b) k = hget st (HRef b) k"
  by (simp add: hget_def nth_append)

lemma hget_fresh: "hget (st @ [ob]) (HRef (length st)) k = (case map_of ob k of None \<Rightarrow> HUndefined | Some x \<Rightarrow> x)"
  by (simp add: hget_def)

lemma keeps_hget:
  assumes "keeps n st st'" and "a < n" and "a < length st"
  shows "hget st' (HRef a) k = hget st (HRef a) k"
proof -
  have "st' ! a = st ! a"
    using assms(1,2) by (rule keeps_nth)
  moreover have "a < length st'"
    using keeps_length[OF assms(1)] assms(3) by simp
  ultimately show ?thesis
    using assms(3) by (simp add: hget_def)
qed

lemma getLegendDefWithScale_st_cases:
  assumes "getLegendDefWithScale_st model channel st = (d, st1)"
  shows "(d = HNull \<and> st1 = st) \<or>
         (\<exists>k s. d = HRef (length st) \<and> st1 = st @ [[(k, HStr s)]]
                \<and> k \<in> {''fill'', ''stroke'', ''size'', ''shape''})"
  using assms
  by (auto simp: getLegendDefWithScale_st_def alloc_def Let_def split: Channel.splits if_splits)

lemma formatMixins_st_frame:
  assumes "formatMixins_reads_only fns model"
    and "formatMixins_st fns legend model channel st = (r, st')"
  shows "keeps (length st) st st' \<and> (\<forall>m. r = Inr m \<longrightarrow> \<not> htruthy (hget st' m ''properties''))"
proof -
  have u: "keeps (length st) st s' \<and> \<not> htruthy (hget s' m ''properties'')"
    if "s_utilFormatMixins fns model channel f st = (m, s')" for f m s'
  proof -
    from assms(1) have "case s_utilFormatMixins fns model channel f st of
        (x, y) \<Rightarrow> keeps (length st) st y \<and> \<not> htruthy (hget y x ''properties'')"
      by (simp add: formatMixins_reads_only_def)
    with that show ?thesis
      by simp
  qed
  show ?thesis
    using assms(2) u
    by (auto simp: formatMixins_st_def Let_def alloc_def keeps_alloc keeps_refl hget_fresh
        split: if_splits prod.splits)
qed

lemma falsy_step:
  assumes "\<not> htruthy (hget s (HRef a) p)" and "\<not> htruthy (hget s src p)"
  shows "\<not> htruthy (hget (hset a name (hget s src name) s) (HRef a) p) \<and>
         \<not> htruthy (hget (hset a name (hget s src name) s) src p)"
proof (cases "\<exists>b. src = HRef b")
  case True
  then obtain b where "src = HRef b" by blast
  with assms show ?thesis
    by (auto simp: hget_hset)
next
  case False
  then have "\<forall>b. src \<noteq> HRef b" by blast
  with assms show ?thesis
    by (auto simp: hget_hset hget_hset_prim)
qed

lemma falsy_fold:
  assumes "\<not> htruthy (hget s (HRef a) p)" and "\<not> htruthy (hget s src p)"
  shows "\<not> htruthy (hget (fold (\<lambda>name s. hset a name (hget s src name) s) ks s) (HRef a) p)"
  using assms
proof (induction ks arbitrary: s)
  case Nil
  then show ?case by simp
next
  case (Cons k ks)
  from falsy_step[OF Cons.prems, of k] Cons.IH[of "hset a k (hget s src k) s"]
  show ?case by simp
qed

lemma hextend_falsy:
  assumes "\<not> htruthy (hget st (HRef a) p)" and "\<not> htruthy (hget st src p)"
  shows "\<not> htruthy (hget (hextend a src st) (HRef a) p)"
  unfolding hextend_def using assms by (rule falsy_fold)

lemma copyProperty_st_frame:
  "n \<le> def \<Longrightarrow> keeps n st (copyProperty_st legend def st property)"
  by (simp add: copyProperty_st_def Let_def keeps_hset keeps_refl)

lemma copyProperty_st_other:
  "k \<noteq> property \<Longrightarrow> hget (copyProperty_st legend def st property) (HRef def) k = hget st (HRef def) k"
  by (simp add: copyProperty_st_def Let_def hget_hset)

lemma requestedProps_st_cases:
  assumes "requestedProps_st legend st = (props, st')"
  shows "st' = st \<or> st' = st @ [[]]"
  using assms by (auto simp: requestedProps_st_def Let_def alloc_def split: if_splits)

lemma rule_st_frame:
  assumes "applyMarkConfig_writes_its_object fns model"
    and "(case properties_st grp of
            Some rule \<Rightarrow> rule fns fieldDef spec model channel st
          | None \<Rightarrow> (other, st)) = (val, st1)"
  shows "keeps (length st) st st1"
  using assms symbols_st_frame[OF assms(1)] labels_st_frame
  by (auto simp: properties_st_def keeps_refl split: if_splits)


lemma addGroup_st_Inl:
  "addGroup_st fns fieldDef props model channel def (Inl e, st) grp = (Inl e, st)"
  by (simp add: addGroup_st_def)

lemma addGroup_st_frame:
  assumes h: "applyMarkConfig_writes_its_object fns model"
    and n: "n \<le> def" "def < length st"
    and inv: "\<forall>g. hget st (HRef def) ''properties'' = HRef g \<longrightarrow> n \<le> g"
    and g: "grp \<noteq> ''properties''"
    and r: "addGroup_st fns fieldDef props model channel def (Inr u, st) grp = (r, st')"
  shows "keeps n st st' \<and> (\<forall>g. hget st' (HRef def) ''properties'' = HRef g \<longrightarrow> n \<le> g)"
proof -
  obtain val st1 where v:
    "(case properties_st grp of
        Some rule \<Rightarrow> rule fns fieldDef (hget st props grp) model channel st
      | None \<Rightarrow> (hget st props grp, st)) = (val, st1)"
    by fastforce
  have k1: "keeps (length st) st st1"
    using h v by (rule rule_st_frame)
  have l1: "def < length st1" "n \<le> length st1"
    using keeps_length[OF k1] n by simp_all
  have p1: "hget st1 (HRef def) ''properties'' = hget st (HRef def) ''properties''"
    using k1 n(2) n(2) by (rule keeps_hget)
  have kn1: "keeps n st st1"
    using k1 by (rule keeps_mono) (use n in simp)
  let ?p = "hget st1 (HRef def) ''properties''"
  show ?thesis
  proof (cases "val \<noteq> HUndefined \<and> length (hprops st1 val) > 0")
    case False
    with r v have "st' = st1"
      by (auto simp: addGroup_st_def Let_def)
    with kn1 inv p1 show ?thesis
      by simp
  next
    case emit: True
    show ?thesis
    proof (cases "htruthy ?p")
      case False
      let ?g = "length st1"
      let ?st3 = "hset def ''properties'' (HRef ?g) (st1 @ [[]])"
      from r v emit False have s: "st' = hset ?g grp val ?st3"
        by (auto simp: addGroup_st_def Let_def alloc_def)
      have "keeps n st1 (st1 @ [[]])"
        using l1 by (simp add: keeps_alloc)
      moreover have "keeps n (st1 @ [[]]) ?st3"
        using n by (simp add: keeps_hset)
      moreover have "keeps n ?st3 st'"
        unfolding s using l1 by (simp add: keeps_hset)
      ultimately have "keeps n st st'"
        using kn1 by (meson keeps_trans)
      moreover have "hget st' (HRef def) ''properties'' = HRef ?g"
        unfolding s using l1 by (simp add: hget_hset length_hset)
      ultimately show ?thesis
        using l1 by simp
    next
      case True
      show ?thesis
      proof (cases "\<exists>a. ?p = HRef a")
        case False
        let ?st3 = "hset def ''properties'' ?p st1"
        from r v emit True False have s: "st' = ?st3"
          by (cases ?p) (auto simp: addGroup_st_def Let_def)
        have "keeps n st1 st'"
          unfolding s using n by (simp add: keeps_hset)
        then have "keeps n st st'"
          using kn1 by (meson keeps_trans)
        moreover have "hget st' (HRef def) ''properties'' = ?p"
          unfolding s using l1 by (simp add: hget_hset)
        ultimately show ?thesis
          using False by simp
      next
        case ref: True
        then obtain a where a: "?p = HRef a"
          by blast
        with inv p1 have na: "n \<le> a"
          by simp
        let ?st3 = "hset def ''properties'' (HRef a) st1"
        from r v emit True a have s: "st' = hset a grp val ?st3"
          by (auto simp: addGroup_st_def Let_def)
        have "keeps n st1 ?st3"
          using n by (simp add: keeps_hset)
        moreover have "keeps n ?st3 st'"
          unfolding s using na by (simp add: keeps_hset)
        ultimately have "keeps n st st'"
          using kn1 by (meson keeps_trans)
        moreover have "hget st' (HRef def) ''properties'' = HRef a"
          unfolding s using l1 g by (simp add: hget_hset length_hset)
        ultimately show ?thesis
          using na by simp
      qed
    qed
  qed
qed

lemma foldl_addGroup_st_Inl:
  "foldl (addGroup_st fns fieldDef props model channel def) (Inl e, st) gs = (Inl e, st)"
  by (induction gs) (simp_all add: addGroup_st_Inl)

lemma foldl_addGroup_st_frame:
  assumes h: "applyMarkConfig_writes_its_object fns model"
    and n: "n \<le> def" "def < length st"
    and inv: "\<forall>g. hget st (HRef def) ''properties'' = HRef g \<longrightarrow> n \<le> g"
    and g: "''properties'' \<notin> set gs"
    and r: "foldl (addGroup_st fns fieldDef props model channel def) (Inr u, st) gs = (r, st')"
  shows "keeps n st st'"
  using n inv g r
proof (induction gs arbitrary: st u)
  case Nil
  then show ?case by (simp add: keeps_refl)
next
  case (Cons x gs)
  obtain r1 st1 where a: "addGroup_st fns fieldDef props model channel def (Inr u, st) x = (r1, st1)"
    by fastforce
  from Cons.prems(4) have x: "x \<noteq> ''properties''" and gs: "''properties'' \<notin> set gs"
    by auto
  from addGroup_st_frame[OF h Cons.prems(1,2,3) x a] have
    k: "keeps n st st1" and i: "\<forall>g. hget st1 (HRef def) ''properties'' = HRef g \<longrightarrow> n \<le> g"
    by simp_all
  have l: "def < length st1"
    using keeps_length[OF k] Cons.prems(2) by simp
  from Cons.prems(5) a have f: "foldl (addGroup_st fns fieldDef props model channel def) (r1, st1) gs = (r, st')"
    by simp
  show ?case
  proof (cases r1)
    case (Inl e)
    with f have "st' = st1"
      by (simp add: foldl_addGroup_st_Inl)
    with k show ?thesis by simp
  next
    case (Inr u1)
    with f Cons.IH[OF Cons.prems(1) l i gs] have "keeps n st1 st'"
      by simp
    with k show ?thesis
      by (rule keeps_trans)
  qed
qed


lemma foldl_copyProperty_st:
  assumes "n \<le> def"
  shows "keeps n st (foldl (copyProperty_st legend def) st [''orient'', ''values'']) \<and>
         hget (foldl (copyProperty_st legend def) st [''orient'', ''values'']) (HRef def) ''properties''
           = hget st (HRef def) ''properties''"
proof -
  have "keeps n st (copyProperty_st legend def st ''orient'')"
    using assms by (rule copyProperty_st_frame)
  moreover have "keeps n (copyProperty_st legend def st ''orient'')
      (copyProperty_st legend def (copyProperty_st legend def st ''orient'') ''values'')"
    using assms by (rule copyProperty_st_frame)
  ultimately have "keeps n st (foldl (copyProperty_st legend def) st [''orient'', ''values''])"
    by (simp add: keeps_trans)
  then show ?thesis
    by (simp add: copyProperty_st_other)
qed

lemma parseLegend_st_frame:
  assumes h1: "applyMarkConfig_writes_its_object fns model"
    and h2: "formatMixins_reads_only fns model"
    and r: "parseLegend_st fns model channel st = (r, st')"
  shows "keeps (length st) st st' \<and> (\<forall>a. r = Inr (HRef a) \<longrightarrow> a = length st)"
proof -
  let ?n = "length st"
  let ?legend = "sm_legend model channel"
  let ?fd = "sm_fieldDef model channel"
  obtain d st1 where d: "getLegendDefWithScale_st model channel st = (d, st1)"
    by fastforce
  from getLegendDefWithScale_st_cases[OF d] show ?thesis
  proof (elim disjE conjE exE)
    assume "d = HNull" "st1 = st"
    with r d show ?thesis
      by (auto simp: parseLegend_st_def keeps_refl)
  next
    fix k s
    assume dr: "d = HRef ?n" and s1: "st1 = st @ [[(k, HStr s)]]"
      and k: "k \<in> {''fill'', ''stroke'', ''size'', ''shape''}"
    have k1: "keeps ?n st st1"
      unfolding s1 by (simp add: keeps_alloc)
    show ?thesis
    proof (cases "title_st fns ?legend ?fd st1")
      case (Inl e)
      with r d dr have "st' = st1" "r = Inl e"
        by (simp_all add: parseLegend_st_def)
      with k1 show ?thesis by simp
    next
      case (Inr t)
      let ?st2 = "hset ?n ''title'' t st1"
      have k2: "keeps ?n st1 ?st2"
        by (simp add: keeps_hset)
      have l2: "?n < length ?st2"
        by (simp add: s1 length_hset)
      have p2: "hget ?st2 (HRef ?n) ''properties'' = HUndefined"
        using k by (auto simp: s1 hget_hset hget_fresh)
      obtain rm st3 where m: "formatMixins_st fns ?legend model channel ?st2 = (rm, st3)"
        by fastforce
      from formatMixins_st_frame[OF h2 m] have
        k3': "keeps (length ?st2) ?st2 st3"
        and pm: "\<forall>m. rm = Inr m \<longrightarrow> \<not> htruthy (hget st3 m ''properties'')"
        by simp_all
      have k3: "keeps ?n ?st2 st3"
        using k3' by (rule keeps_mono) (use l2 in simp)
      have l3: "?n < length st3"
        using keeps_length[OF k3] l2 by simp
      have p3: "hget st3 (HRef ?n) ''properties'' = HUndefined"
        using keeps_hget[OF k3' l2 l2] p2 by simp
      note k03 = keeps_trans[OF keeps_trans[OF k1 k2] k3]
      show ?thesis
      proof (cases rm)
        case (Inl e)
        with r d dr Inr m have "st' = st3" "r = Inl e"
          by (simp_all add: parseLegend_st_def)
        with k03 show ?thesis by simp
      next
        case mix: (Inr mixins)
        let ?st4 = "hextend ?n mixins st3"
        let ?st5 = "foldl (copyProperty_st ?legend ?n) ?st4 [''orient'', ''values'']"
        have k4: "keeps ?n st3 ?st4"
          by (simp add: keeps_hextend)
        have p4: "\<not> htruthy (hget ?st4 (HRef ?n) ''properties'')"
          using pm mix p3 by (intro hextend_falsy) simp_all
        from foldl_copyProperty_st[of ?n ?n ?st4 ?legend] have
          k5: "keeps ?n ?st4 ?st5"
          and p5: "hget ?st5 (HRef ?n) ''properties'' = hget ?st4 (HRef ?n) ''properties''"
          by simp_all
        note k05 = keeps_trans[OF keeps_trans[OF k03 k4] k5]
        have l5: "?n < length ?st5"
          using keeps_length[OF keeps_trans[OF k4 k5]] l3 by simp
        obtain props st6 where q: "requestedProps_st ?legend ?st5 = (props, st6)"
          by fastforce
        from requestedProps_st_cases[OF q] have
          k6: "keeps ?n ?st5 st6"
          and p6: "hget st6 (HRef ?n) ''properties'' = hget ?st5 (HRef ?n) ''properties''"
          and l6: "?n < length st6"
          using l5 by (auto simp: keeps_refl keeps_alloc hget_append)
        have inv: "\<forall>g. hget st6 (HRef ?n) ''properties'' = HRef g \<longrightarrow> ?n \<le> g"
          using p4 p5 p6 by auto
        obtain rg st7 where f:
          "foldl (addGroup_st fns ?fd props model channel ?n) (Inr (), st6)
             [''title'', ''symbols'', ''legend'', ''labels''] = (rg, st7)"
          by fastforce
        have k7: "keeps ?n st6 st7"
          using h1 _ l6 inv _ f by (rule foldl_addGroup_st_frame) simp_all
        from r d dr Inr m mix q f have "st' = st7" "\<forall>a. r = Inr (HRef a) \<longrightarrow> a = ?n"
          by (auto simp: parseLegend_st_def Let_def split: sum.splits)
        with keeps_trans[OF keeps_trans[OF k05 k6] k7] show ?thesis
          by simp
      qed
    qed
  qed
qed

lemma addLegend_st_Inl:
  "addLegend_st fns model lc (Inl e, st) channel = (Inl e, st)"
  by (simp add: addLegend_st_def)

lemma addLegend_st_frame:
  assumes h1: "applyMarkConfig_writes_its_object fns model"
    and h2: "formatMixins_reads_only fns model"
    and n: "n \<le> lc" "n \<le> length st"
    and r: "addLegend_st fns model lc (Inr u, st) channel = (r, st')"
  shows "keeps n st st'"
proof (cases "htruthy (sm_legend model channel)")
  case False
  with r show ?thesis
    by (simp add: addLegend_st_def keeps_refl)
next
  case True
  obtain rp st1 where p: "parseLegend_st fns model channel st = (rp, st1)"
    by fastforce
  from parseLegend_st_frame[OF h1 h2 p] have "keeps (length st) st st1"
    by simp
  then have k1: "keeps n st st1"
    by (rule keeps_mono) (use n in simp)
  show ?thesis
  proof (cases rp)
    case (Inl e)
    with r True p have "st' = st1"
      by (simp add: addLegend_st_def)
    with k1 show ?thesis by simp
  next
    case (Inr v)
    with r True p have "st' = hset lc (channel_string channel) v st1"
      by (simp add: addLegend_st_def)
    with k1 keeps_hset[OF n(1), of st1] show ?thesis
      by (auto intro: keeps_trans)
  qed
qed

lemma foldl_addLegend_st_frame:
  assumes h1: "applyMarkConfig_writes_its_object fns model"
    and h2: "formatMixins_reads_only fns model"
    and n: "n \<le> lc" "n \<le> length st"
    and r: "foldl (addLegend_st fns model lc) (acc, st) cs = (r, st')"
  shows "keeps n st st'"
  using n r
proof (induction cs arbitrary: acc st)
  case Nil
  then show ?case by (simp add: keeps_refl)
next
  case (Cons c cs)
  obtain r1 st1 where a: "addLegend_st fns model lc (acc, st) c = (r1, st1)"
    by fastforce
  have k: "keeps n st st1"
  proof (cases acc)
    case (Inl e)
    with a show ?thesis by (simp add: addLegend_st_Inl keeps_refl)
  next
    case (Inr u)
    with a show ?thesis
      using addLegend_st_frame[OF h1 h2 Cons.prems(1,2)] by simp
  qed
  have l: "n \<le> length st1"
    using keeps_length[OF k] Cons.prems(2) by simp
  from Cons.prems(3) a have "foldl (addLegend_st fns model lc) (r1, st1) cs = (r, st')"
    by simp
  from Cons.IH[OF Cons.prems(1) l this] k show ?case
    by (auto intro: keeps_trans)
qed

lemma parseLegendComponent_st_frame:
  assumes h1: "applyMarkConfig_writes_its_object fns model"
    and h2: "formatMixins_reads_only fns model"
    and r: "parseLegendComponent_st fns model st = (r, st')"
  shows "keeps (length st) st st' \<and> (\<forall>a. r = Inr (HRef a) \<longrightarrow> a = length st)"
proof -
  obtain rf st2 where f:
    "foldl (addLegend_st fns model (length st)) (Inr (), st @ [[]]) [COLOR, SIZE, SHAPE] = (rf, st2)"
    by fastforce
  have "keeps (length st) (st @ [[]]) st2"
    using h1 h2 _ _ f by (rule foldl_addLegend_st_frame) simp_all
  moreover have "keeps (length st) st (st @ [[]])"
    by (simp add: keeps_alloc)
  moreover from r f have "st' = st2" "\<forall>a. r = Inr (HRef a) \<longrightarrow> a = length st"
    by (auto simp: parseLegendComponent_st_def alloc_def split: sum.splits)
  ultimately show ?thesis
    by (auto intro: keeps_trans)
qed

lemma keeps_all: "keeps (length st) st st' \<Longrightarrow> take (length st) st' = st"
  by (simp add: keeps_def)

section \<open>The store: no input is written to\<close>

text \<open>
  On the sample store the translation on a store computes what the translation on
  values computes: read back from the store, the mark configuration and the legends are
  the same.
\<close>

lemma store_agrees_on_sample:
  "(case initMarkConfig_st sample_store_encoding_fns BAR 1 0 sample_store of
      (cfg, st') \<Rightarrow> reify 3 st' (HRef cfg))
   = JObj (initMarkConfig sample_fns BAR (sample_encoding [(X, sample_field ''a'' QUANTITATIVE)])
             \<lparr>config_mark = [(''filled'', JBool False), (''color'', JStr ''blue'')]\<rparr>)"
  "(case parseLegendComponent_st sample_store_fns sample_store_model sample_store of
      (Inr r, st') \<Rightarrow> reify 8 st' r
    | (Inl e, st') \<Rightarrow> JUndefined)
   = (case parseLegendComponent sample_legend_fns ordinal_color_model of
        Inr out \<Rightarrow> JObj (map (\<lambda>(c, d). (channel_string c, JObj d)) out)
      | Inl e \<Rightarrow> JNull)"
  by code_simp+

text \<open>The sample collaborators keep to what is asked of them.\<close>

lemma sample_applyMarkConfig_frame:
  "applyMarkConfig_writes_its_object sample_store_fns model"
proof -
  have "keeps n st
     (foldl (\<lambda>s property.
                  if hget s (HRef (sm_configMark model)) property \<noteq> HUndefined
                  then hset a property (HRef (length s))
                         (s @ [[(''value'', hget s (HRef (sm_configMark model)) property)]])
                  else s) st ps)"
    if "n \<le> a" "n \<le> length st" for n a ps st
    using that(2)
  proof (induction ps arbitrary: st)
    case Nil
    then show ?case by (simp add: keeps_refl)
  next
    case (Cons p ps)
    let ?s1 = "if hget st (HRef (sm_configMark model)) p \<noteq> HUndefined
               then hset a p (HRef (length st))
                      (st @ [[(''value'', hget st (HRef (sm_configMark model)) p)]])
               else st"
    have k: "keeps n st ?s1"
      using Cons.prems that(1)
      by (auto intro: keeps_trans[OF keeps_alloc keeps_hset] keeps_refl)
    then have "n \<le> length ?s1"
      using keeps_length[OF k] Cons.prems by simp
    from Cons.IH[OF this] k show ?case
      by (auto intro: keeps_trans)
  qed
  then show ?thesis
    by (simp add: applyMarkConfig_writes_its_object_def sample_store_fns_def)
qed

lemma sample_formatMixins_frame:
  "formatMixins_reads_only sample_store_fns model"
  by (simp add: formatMixins_reads_only_def sample_store_fns_def keeps_alloc hget_fresh)

text \<open>
  Claim C9. A call of \<open>initMarkConfig\<close>, of \<open>parseLegend\<close> or of
  \<open>parseLegendComponent\<close> leaves every object that exists when the call starts as it
  was: the store after the call begins with the store before it, so the base
  configuration, the encoding and the objects of the model (the legend requests and
  their overrides among them) are unchanged, also when the call throws. Every write goes
  to an object the call has allocated, and the object a call returns is one it has
  allocated. For the two legend functions this holds when \<open>applyMarkConfig\<close> changes no
  object but the one it is handed and the format-mixin resolver changes no object and
  returns one without a truthy \<open>properties\<close>; the model's accessors, the field title,
  the time format and the predicates on the encoding only read.
\<close>

theorem inputs_not_mutated:
  "(\<forall>cfg st'. initMarkConfig_st efns mark encoding configMark st = (cfg, st') \<longrightarrow>
       cfg = length st \<and> cfg < length st' \<and> take (length st) st' = st) \<and>
   (applyMarkConfig_writes_its_object fns model \<and> formatMixins_reads_only fns model \<longrightarrow>
      (\<forall>r st'. parseLegend_st fns model channel st = (r, st') \<longrightarrow>
         length st \<le> length st' \<and> take (length st) st' = st \<and>
         (\<forall>a. r = Inr (HRef a) \<longrightarrow> a = length st)) \<and>
      (\<forall>r st'. parseLegendComponent_st fns model st = (r, st') \<longrightarrow>
         length st \<le> length st' \<and> take (length st) st' = st \<and>
         (\<forall>a. r = Inr (HRef a) \<longrightarrow> a = length st)))"
proof (intro conjI allI impI)
  fix cfg st'
  assume i: "initMarkConfig_st efns mark encoding configMark st = (cfg, st')"
  let ?st2 = "foldl (markRule_st efns mark encoding configMark (length st)) (st @ [[]])
                  [''filled'', ''opacity'', ''orient'', ''align'']"
  from i have s: "st' = hextend (length st) (HRef configMark) ?st2"
    by (auto simp: initMarkConfig_st_def alloc_def)
  have "keeps (length st) (st @ [[]]) ?st2"
    by (rule keeps_foldl_markRule_st) simp
  moreover have "keeps (length st) ?st2 st'"
    unfolding s by (rule keeps_hextend) simp
  ultimately have "length (st @ [[]]) \<le> length st'"
    by (meson keeps_length le_trans)
  moreover from initMarkConfig_st_frame[OF i] have "cfg = length st" "keeps (length st) st st'"
    by simp_all
  ultimately show "cfg = length st" "cfg < length st'" "take (length st) st' = st"
    by (simp_all add: keeps_def)
next
  fix r st'
  assume "applyMarkConfig_writes_its_object fns model \<and> formatMixins_reads_only fns model"
    and "parseLegend_st fns model channel st = (r, st')"
  then have "keeps (length st) st st' \<and> (\<forall>a. r = Inr (HRef a) \<longrightarrow> a = length st)"
    using parseLegend_st_frame by blast
  then show "length st \<le> length st'" "take (length st) st' = st"
    "\<And>a. r = Inr (HRef a) \<Longrightarrow> a = length st"
    by (simp_all add: keeps_def)
next
  fix r st'
  assume "applyMarkConfig_writes_its_object fns model \<and> formatMixins_reads_only fns model"
    and "parseLegendComponent_st fns model st = (r, st')"
  then have "keeps (length st) st st' \<and> (\<forall>a. r = Inr (HRef a) \<longrightarrow> a = length st)"
    using parseLegendComponent_st_frame by blast
  then show "length st \<le> length st'" "take (length st) st' = st"
    "\<And>a. r = Inr (HRef a) \<Longrightarrow> a = length st"
    by (simp_all add: keeps_def)
qed

text \<open>
  On the sample store of ten objects: the mark configuration of a bar, the color legend
  and the legend component are each the eleventh object, and the first ten objects
  are the sample store again.
\<close>

theorem inputs_not_mutated_witness:
  "applyMarkConfig_writes_its_object sample_store_fns sample_store_model \<and>
   formatMixins_reads_only sample_store_fns sample_store_model \<and>
   length sample_store = 10 \<and>
   fst (initMarkConfig_st sample_store_encoding_fns BAR 1 0 sample_store) = 10 \<and>
   take 10 (snd (initMarkConfig_st sample_store_encoding_fns BAR 1 0 sample_store))
     = sample_store \<and>
   fst (parseLegend_st sample_store_fns sample_store_model COLOR sample_store)
     = Inr (HRef 10) \<and>
   take 10 (snd (parseLegend_st sample_store_fns sample_store_model COLOR sample_store))
     = sample_store \<and>
   fst (parseLegendComponent_st sample_store_fns sample_store_model sample_store)
     = Inr (HRef 10) \<and>
   take 10 (snd (parseLegendComponent_st sample_store_fns sample_store_model sample_store))
     = sample_store"
proof -
  note h = sample_applyMarkConfig_frame[of sample_store_model]
    sample_formatMixins_frame[of sample_store_model]
  have l: "length sample_store = 10"
    by (simp add: sample_store_def)
  have r: "fst (initMarkConfig_st sample_store_encoding_fns BAR 1 0 sample_store) = 10"
    "fst (parseLegend_st sample_store_fns sample_store_model COLOR sample_store) = Inr (HRef 10)"
    "fst (parseLegendComponent_st sample_store_fns sample_store_model sample_store)
       = Inr (HRef 10)"
    by code_simp+
  note t = inputs_not_mutated
    [of sample_store_encoding_fns BAR 1 0 sample_store sample_store_fns sample_store_model COLOR]
  have "take 10 (snd (initMarkConfig_st sample_store_encoding_fns BAR 1 0 sample_store))
          = sample_store"
    using t l by (simp add: prod_eq_iff)
  moreover have
    "take 10 (snd (parseLegend_st sample_store_fns sample_store_model COLOR sample_store))
       = sample_store"
    using t h l by (simp add: prod_eq_iff)
  moreover have
    "take 10 (snd (parseLegendComponent_st sample_store_fns sample_store_model sample_store))
       = sample_store"
    using t h l by (simp add: prod_eq_iff)
  ultimately show ?thesis
    using h l r by simp
qed

end
